theory Spec2Isabelle
  imports Main "HOL-Library.AList" "HOL-Library.Word"
begin

unbundle bit_operations_syntax

section \<open>Data model\<close>

text \<open>
  The Go code of \<open>internal/alb/rs/rule.go\<close> and of the load balancer's option
  comparison. Pointers to scalars (\<open>*string\<close>, \<open>*bool\<close>) and to structs are
  \<open>option\<close> values, \<open>None\<close> being the nil pointer; a dereference of nil is the
  panic \<open>NilDereference\<close>. A slice of pointers (\<open>[]*Action\<close>,
  \<open>[]*RuleCondition\<close>, \<open>[]*Rule\<close>, \<open>[]*string\<close>) is a list of values: the SDK's
  decoder and \<open>NewDesiredRule\<close> store no nil element; a nil slice and an empty one
  are the same list, except for the port list of the load balancer options, whose
  nil-ness the code tests. The current and the desired snapshot of a rule are values of
  their own (they share no memory at entry).
\<close>

datatype panic = NilDereference | IndexOutOfRange

datatype NumError = ErrSyntax | ErrRange

datatype IntOrString = IntVal int | StrVal string

record service =
  name :: string
  port :: IntOrString
  targetPort :: int

record Action =
  TargetGroupArn :: "string option"
  Type :: "string option"

record RuleCondition =
  Field :: "string option"
  Values :: "string list"

record elbv2_Rule =
  Actions :: "Action list"
  Conditions :: "RuleCondition list"
  IsDefault :: "bool option"
  Priority :: "string option"
  RuleArn :: "string option"

record Rule =
  svc_current :: service
  svc_desired :: service
  rs_current :: "elbv2_Rule option"
  rs_desired :: "elbv2_Rule option"
  deleted :: bool

record NewDesiredRuleOptions =
  opt_Priority :: int
  Hostname :: string
  IgnoreHostHeader :: "bool option"
  Path :: string
  SvcName :: string
  SvcPort :: IntOrString
  TargetPort :: int

record NewCurrentRuleOptions =
  cur_SvcName :: string
  cur_SvcPort :: IntOrString
  cur_TargetPort :: int
  cur_Rule :: "elbv2_Rule option"

section \<open>Decimal formatting and parsing (Go's fmt and strconv)\<close>

text \<open>Go's \<open>uint64\<close> and \<open>int64\<close> values are integers here, with every range check
  of the library written out.\<close>

definition digit_char :: "int \<Rightarrow> char" where
  "digit_char d = char_of (48 + d)"

function FormatUint :: "int \<Rightarrow> string" where
  "FormatUint n = (if n < 10 then [digit_char n] else FormatUint (n div 10) @ [digit_char (n mod 10)])"
  by pat_completeness auto
termination
  by (relation "measure nat") auto

declare FormatUint.simps [simp del]

text \<open>\<open>fmt.Sprintf("%v", n)\<close> for a Go \<open>int\<close>: the decimal digits, a minus sign first
  for a negative number.\<close>

definition Sprintf_v :: "int \<Rightarrow> string" where
  "Sprintf_v n = (if n < 0 then CHR ''-'' # FormatUint (- n) else FormatUint n)"

definition is_digit :: "char \<Rightarrow> bool" where
  "is_digit c = (48 \<le> (of_char c :: int) \<and> (of_char c :: int) \<le> 57)"

definition maxUint64 :: int where
  "maxUint64 = 18446744073709551615"

text \<open>The loop of \<open>strconv.ParseUint(s, 10, 64)\<close>: a byte that is no decimal digit is a
  syntax error; an overflow returns the largest value and a range error at once, before the
  bytes after it are looked at.\<close>

fun ParseUint_loop :: "int \<Rightarrow> string \<Rightarrow> int \<times> NumError option" where
  "ParseUint_loop n [] = (n, None)"
| "ParseUint_loop n (c # cs) =
     (if \<not> is_digit c then (0, Some ErrSyntax)
      else if n \<ge> maxUint64 div 10 + 1 then (maxUint64, Some ErrRange)
      else let n1 = n * 10 + (of_char c - 48)
           in if n1 > maxUint64 then (maxUint64, Some ErrRange)
              else ParseUint_loop n1 cs)"

definition ParseUint :: "string \<Rightarrow> int \<times> NumError option" where
  "ParseUint s = (if s = [] then (0, Some ErrSyntax) else ParseUint_loop 0 s)"

text \<open>\<open>strconv.ParseInt(s, 10, 64)\<close>: an optional sign, then \<open>ParseUint\<close>; a syntax
  error gives 0, a value out of the range of \<open>int64\<close> is clamped to the nearest bound.
  After the two range checks \<open>un\<close> is at most \<open>2^63\<close>, so that the conversion to
  \<open>int64\<close> and the negation give \<open>- un\<close> (at \<open>2^63\<close> both wrap, to \<open>- 2^63\<close>).\<close>

definition ParseInt :: "string \<Rightarrow> int \<times> NumError option" where
  "ParseInt s =
     (if s = [] then (0, Some ErrSyntax)
      else let neg = (hd s = CHR ''-'');
               s1 = (if hd s = CHR ''+'' \<or> hd s = CHR ''-'' then tl s else s)
           in case ParseUint s1 of
                (un, Some ErrSyntax) \<Rightarrow> (0, Some ErrSyntax)
              | (un, _) \<Rightarrow>
                  if \<not> neg \<and> un \<ge> 2 ^ 63 then (2 ^ 63 - 1, Some ErrRange)
                  else if neg \<and> un > 2 ^ 63 then (- (2 ^ 63), Some ErrRange)
                  else (if neg then - un else un, None))"

section \<open>Building a rule\<close>

definition NewDesiredRule :: "NewDesiredRuleOptions \<Rightarrow> Rule" where
  "NewDesiredRule opt =
     (let r0 = \<lparr>Actions = [\<lparr>TargetGroupArn = None, Type = Some ''forward''\<rparr>],
                Conditions = [], IsDefault = None, Priority = None, RuleArn = None\<rparr>;
          r1 = (if opt_Priority opt = 0
                then r0\<lparr>IsDefault := Some True, Priority := Some ''default''\<rparr>
                else r0\<lparr>IsDefault := Some False, Priority := Some (Sprintf_v (opt_Priority opt))\<rparr>);
          r2 = (if IsDefault r1 = Some False
                then (let ra = (if Hostname opt \<noteq> [] \<and> IgnoreHostHeader opt = Some False
                                then r1\<lparr>Conditions := Conditions r1 @
                                         [\<lparr>Field = Some ''host-header'', Values = [Hostname opt]\<rparr>]\<rparr>
                                else r1)
                      in (if Path opt \<noteq> []
                          then ra\<lparr>Conditions := Conditions ra @
                                   [\<lparr>Field = Some ''path-pattern'', Values = [Path opt]\<rparr>]\<rparr>
                          else ra))
                else r1)
      in \<lparr>svc_current = \<lparr>name = [], port = IntVal 0, targetPort = 0\<rparr>,
          svc_desired = \<lparr>name = SvcName opt, port = SvcPort opt, targetPort = TargetPort opt\<rparr>,
          rs_current = None, rs_desired = Some r2, deleted = False\<rparr>)"

definition NewCurrentRule :: "NewCurrentRuleOptions \<Rightarrow> Rule" where
  "NewCurrentRule opt =
     \<lparr>svc_current = \<lparr>name = cur_SvcName opt, port = cur_SvcPort opt, targetPort = cur_TargetPort opt\<rparr>,
      svc_desired = \<lparr>name = [], port = IntVal 0, targetPort = 0\<rparr>,
      rs_current = cur_Rule opt, rs_desired = None, deleted = False\<rparr>"

definition priority :: "string option \<Rightarrow> panic + int" where
  "priority s =
     (case s of
        None \<Rightarrow> Inl NilDereference
      | Some str \<Rightarrow> if str = ''default'' then Inr 0 else Inr (fst (ParseInt str)))"

section \<open>Effects: cloud calls, audit events, log lines\<close>

text \<open>
  The three calls of the cloud client \<open>albelbv2.ELBV2svc\<close> are parameters: each maps its
  input to the error text (\<open>err.Error()\<close>) or to the rules of its output. Every call
  issued is appended to \<open>calls\<close>, every \<open>rOpts.Eventf\<close> to \<open>events\<close> (with its format
  and arguments as passed), every line of the logger to \<open>logs\<close> (its level and format).
  \<open>in.Priority\<close> is the result of \<open>aws.Int64\<close>, never nil.
\<close>

datatype EventType = EventTypeNormal | EventTypeWarning

datatype fmt_arg = Str string | Int64 int | Prettify_Rule "elbv2_Rule option"

datatype event = Eventf EventType string string "fmt_arg list"

datatype error = fmt_Errorf string "fmt_arg list"

datatype log_line = Infof string | Debugf string | Errorf string

record CreateRuleInput =
  in_Actions :: "Action list"
  in_Conditions :: "RuleCondition list"
  in_ListenerArn :: "string option"
  in_Priority :: int

record ModifyRuleInput =
  mod_Actions :: "Action list"
  mod_Conditions :: "RuleCondition list"
  mod_RuleArn :: "string option"

record DeleteRuleInput =
  del_RuleArn :: "string option"

datatype api_call =
  CreateRule_call CreateRuleInput
| ModifyRule_call ModifyRuleInput
| DeleteRule_call DeleteRuleInput

record ELBV2API =
  CreateRule :: "CreateRuleInput \<Rightarrow> string + elbv2_Rule list"
  ModifyRule :: "ModifyRuleInput \<Rightarrow> string + elbv2_Rule list"
  DeleteRule :: "DeleteRuleInput \<Rightarrow> string option"

record effects =
  calls :: "api_call list"
  events :: "event list"
  logs :: "log_line list"

record TargetGroup =
  tg_SvcName :: string
  tg_SvcPort :: IntOrString
  tg_CurrentARN :: "string option"

record ReconcileOptions =
  ListenerArn :: "string option"
  TargetGroups :: "TargetGroup list"

definition call :: "api_call \<Rightarrow> effects \<Rightarrow> effects" where
  "call c fx = fx\<lparr>calls := calls fx @ [c]\<rparr>"

definition emit :: "event \<Rightarrow> effects \<Rightarrow> effects" where
  "emit e fx = fx\<lparr>events := events fx @ [e]\<rparr>"

definition log :: "log_line \<Rightarrow> effects \<Rightarrow> effects" where
  "log l fx = fx\<lparr>logs := logs fx @ [l]\<rparr>"

section \<open>Target resolution\<close>

text \<open>Modelled from the spec: \<open>tg.TargetGroups.LookupByBackend\<close> and the target group's
  \<open>CurrentARN\<close> are not in the source at hand. The lookup returns the position of the first
  target group of the backend (service name and service port), \<open>-1\<close> when there is none.\<close>

fun LookupByBackend_from :: "int \<Rightarrow> TargetGroup list \<Rightarrow> string \<Rightarrow> IntOrString \<Rightarrow> int" where
  "LookupByBackend_from p [] n q = - 1"
| "LookupByBackend_from p (t # ts) n q =
     (if tg_SvcName t = n \<and> tg_SvcPort t = q then p else LookupByBackend_from (p + 1) ts n q)"

definition LookupByBackend :: "TargetGroup list \<Rightarrow> string \<Rightarrow> IntOrString \<Rightarrow> int" where
  "LookupByBackend tgs n q = LookupByBackend_from 0 tgs n q"

definition Rule_TargetGroupArn ::
  "Rule \<Rightarrow> TargetGroup list \<Rightarrow> effects \<Rightarrow> panic + (string option \<times> effects)" where
  "Rule_TargetGroupArn r tgs fx =
     (let i = LookupByBackend tgs (name (svc_desired r)) (port (svc_desired r))
      in if i < 0
         then Inr (None, log (Errorf ''Failed to locate TargetGroup related to this service: %s:%s'') fx)
         else if nat i \<ge> length tgs then Inl IndexOutOfRange
         else let arn = tg_CurrentARN (tgs ! nat i)
              in if arn = None
                 then Inr (arn, log (Errorf ''Located TargetGroup but no known (current) state found: %s:%s'') fx)
                 else Inr (arn, fx))"

text \<open>The loop at the head of \<open>Reconcile\<close>: every action of the desired rule gets the
  resolved target group ARN.\<close>

fun Reconcile_setArns ::
  "Rule \<Rightarrow> TargetGroup list \<Rightarrow> Action list \<Rightarrow> effects \<Rightarrow> panic + (Action list \<times> effects)" where
  "Reconcile_setArns r tgs [] fx = Inr ([], fx)"
| "Reconcile_setArns r tgs (a # as) fx =
     (case Rule_TargetGroupArn r tgs fx of
        Inl p \<Rightarrow> Inl p
      | Inr (arn, fx1) \<Rightarrow>
          (case Reconcile_setArns r tgs as fx1 of
             Inl p \<Rightarrow> Inl p
           | Inr (as', fx2) \<Rightarrow> Inr (a\<lparr>TargetGroupArn := arn\<rparr> # as', fx2)))"

section \<open>Comparing current and desired\<close>

text \<open>Modelled from the spec: \<open>util.DeepEqual\<close> is not in the source at hand; it is deep
  structural equality of the two values.\<close>

definition DeepEqual :: "'a \<Rightarrow> 'a \<Rightarrow> bool" where
  "DeepEqual x y = (x = y)"

text \<open>The Go map is an association list with one entry for each key; a later condition of
  the same field replaces the value of the earlier one.\<close>

fun conditionToMap_loop ::
  "(string \<times> string list) list \<Rightarrow> RuleCondition list \<Rightarrow> panic + (string \<times> string list) list" where
  "conditionToMap_loop cMap [] = Inr cMap"
| "conditionToMap_loop cMap (c # cs) =
     (case Field c of
        None \<Rightarrow> Inl NilDereference
      | Some f \<Rightarrow> conditionToMap_loop (AList.update f (Values c) cMap) cs)"

definition conditionToMap :: "RuleCondition list \<Rightarrow> panic + (string \<times> string list) list" where
  "conditionToMap cs = conditionToMap_loop [] cs"

text \<open>The range over \<open>cMap1\<close> returns false at the first key that fails, whatever the
  order in which Go visits the keys: the result is true when no key fails.\<close>

definition conditionsEqual :: "RuleCondition list \<Rightarrow> RuleCondition list \<Rightarrow> panic + bool" where
  "conditionsEqual c1 c2 =
     (case conditionToMap c1 of
        Inl p \<Rightarrow> Inl p
      | Inr cMap1 \<Rightarrow>
          (case conditionToMap c2 of
             Inl p \<Rightarrow> Inl p
           | Inr cMap2 \<Rightarrow>
               Inr (list_all (\<lambda>(k, v). case map_of cMap2 k of
                                          None \<Rightarrow> False
                                        | Some val \<Rightarrow> DeepEqual v val) cMap1)))"

definition needsModification :: "Rule \<Rightarrow> effects \<Rightarrow> panic + (bool \<times> effects)" where
  "needsModification r fx =
     (case rs_current r of
        None \<Rightarrow> Inr (True, log (Debugf ''Current is nil'') fx)
      | Some crs \<Rightarrow>
          (case rs_desired r of
             None \<Rightarrow> Inl NilDereference
           | Some drs \<Rightarrow>
               if \<not> DeepEqual (Actions crs) (Actions drs)
               then Inr (True, log (Debugf ''Actions needs to be changed (%v != %v)'') fx)
               else (case conditionsEqual (Conditions crs) (Conditions drs) of
                       Inl p \<Rightarrow> Inl p
                     | Inr ceq \<Rightarrow>
                         if \<not> ceq
                         then Inr (True, log (Debugf ''Conditions needs to be changed (%v != %v)'') fx)
                         else if name (svc_current r) \<noteq> name (svc_desired r)
                         then Inr (True, log (Debugf ''SvcName needs to be changed (%v != %v)'') fx)
                         else if targetPort (svc_current r) \<noteq> targetPort (svc_desired r)
                                 \<and> targetPort (svc_current r) \<noteq> 0
                         then Inr (True, log (Debugf ''Target port needs to be changed (%v != %v)'') fx)
                         else Inr (False, fx))))"

section \<open>Create, modify, delete\<close>

definition create_input :: "ReconcileOptions \<Rightarrow> Rule \<Rightarrow> panic + CreateRuleInput" where
  "create_input rOpts r =
     (case rs_desired r of
        None \<Rightarrow> Inl NilDereference
      | Some d \<Rightarrow>
          (case priority (Priority d) of
             Inl p \<Rightarrow> Inl p
           | Inr pr \<Rightarrow> Inr \<lparr>in_Actions = Actions d, in_Conditions = Conditions d,
                             in_ListenerArn = ListenerArn rOpts, in_Priority = pr\<rparr>))"

definition create ::
  "ELBV2API \<Rightarrow> ReconcileOptions \<Rightarrow> Rule \<Rightarrow> effects \<Rightarrow> panic + (error option \<times> Rule \<times> effects)" where
  "create api rOpts r fx =
     (case create_input rOpts r of
        Inl p \<Rightarrow> Inl p
      | Inr inp \<Rightarrow>
          (case CreateRule api inp of
             Inl err \<Rightarrow>
               Inr (Some (fmt_Errorf ''Failed Rule creation. Rule: %s | Error: %s''
                            [Prettify_Rule (rs_desired r), Str err]),
                    r,
                    emit (Eventf EventTypeWarning ''ERROR'' ''Error creating %v rule: %s''
                            [Int64 (in_Priority inp), Str err])
                      (call (CreateRule_call inp) fx))
           | Inr rules \<Rightarrow>
               (case rules of
                  [] \<Rightarrow> Inl IndexOutOfRange
                | x # _ \<Rightarrow>
                    Inr (None,
                         r\<lparr>rs_current := Some x, svc_current := svc_desired r\<rparr>,
                         call (CreateRule_call inp) fx))))"

definition modify_input :: "Rule \<Rightarrow> panic + ModifyRuleInput" where
  "modify_input r =
     (case rs_desired r of
        None \<Rightarrow> Inl NilDereference
      | Some d \<Rightarrow>
          (case rs_current r of
             None \<Rightarrow> Inl NilDereference
           | Some c \<Rightarrow> Inr \<lparr>mod_Actions = Actions d, mod_Conditions = Conditions d,
                            mod_RuleArn = RuleArn c\<rparr>))"

definition modify ::
  "ELBV2API \<Rightarrow> ReconcileOptions \<Rightarrow> Rule \<Rightarrow> effects \<Rightarrow> panic + (error option \<times> Rule \<times> effects)" where
  "modify api rOpts r fx =
     (case modify_input r of
        Inl p \<Rightarrow> Inl p
      | Inr inp \<Rightarrow>
          (case ModifyRule api inp of
             Inl err \<Rightarrow>
               (case mod_RuleArn inp of
                  None \<Rightarrow> Inl NilDereference
                | Some arn \<Rightarrow>
                    (let msg = ''Error modifying rule '' @ arn @ '': '' @ err
                     in Inr (Some (fmt_Errorf msg []),
                             r,
                             emit (Eventf EventTypeWarning ''ERROR'' msg [])
                               (call (ModifyRule_call inp) fx))))
           | Inr rules \<Rightarrow>
               Inr (None,
                    (if length rules > 0 then r\<lparr>rs_current := Some (hd rules)\<rparr> else r)
                      \<lparr>svc_current := svc_desired r\<rparr>,
                    call (ModifyRule_call inp) fx)))"

definition delete ::
  "ELBV2API \<Rightarrow> ReconcileOptions \<Rightarrow> Rule \<Rightarrow> effects \<Rightarrow> panic + (error option \<times> Rule \<times> effects)" where
  "delete api rOpts r fx =
     (case rs_current r of
        None \<Rightarrow>
          Inr (None, r, log (Infof ''Rule entered delete with no Current to delete. Rule: %s'') fx)
      | Some c \<Rightarrow>
          (case IsDefault c of
             None \<Rightarrow> Inl NilDereference
           | Some True \<Rightarrow>
               Inr (None, r,
                    log (Debugf ''Deletion hit for default rule, which is bound to the Listener. It will not be deleted from here. Rule. Rule: %s'') fx)
           | Some False \<Rightarrow>
               (let inp = \<lparr>del_RuleArn = RuleArn c\<rparr>
                in case DeleteRule api inp of
                     Some err \<Rightarrow>
                       (case Priority c of
                          None \<Rightarrow> Inl NilDereference
                        | Some p \<Rightarrow>
                            Inr (Some (fmt_Errorf ''Failed Rule deletion. Error: %s'' [Str err]),
                                 r,
                                 emit (Eventf EventTypeWarning ''ERROR'' ''Error deleting %s rule: %s''
                                         [Str p, Str err])
                                   (call (DeleteRule_call inp) fx)))
                   | None \<Rightarrow> Inr (None, r\<lparr>deleted := True\<rparr>, call (DeleteRule_call inp) fx))))"

section \<open>Reconcile\<close>

text \<open>After a successful call the event takes \<open>*r.rs.current.Priority\<close>: a nil current
  or a nil priority panics there.\<close>

definition completed ::
  "string \<Rightarrow> string \<Rightarrow> log_line list \<Rightarrow> Rule \<Rightarrow> effects \<Rightarrow> panic + (error option \<times> Rule \<times> effects)" where
  "completed reason fmt lines r fx =
     (case rs_current r of
        None \<Rightarrow> Inl NilDereference
      | Some c \<Rightarrow>
          (case Priority c of
             None \<Rightarrow> Inl NilDereference
           | Some p \<Rightarrow>
               Inr (None, r,
                    (emit (Eventf EventTypeNormal reason fmt [Str p]) fx)
                      \<lparr>logs := logs fx @ lines\<rparr>)))"

definition Reconcile_switch ::
  "ELBV2API \<Rightarrow> ReconcileOptions \<Rightarrow> Rule \<Rightarrow> effects \<Rightarrow> panic + (error option \<times> Rule \<times> effects)" where
  "Reconcile_switch api rOpts r fx =
     (case rs_desired r of
        None \<Rightarrow>
          (case rs_current r of
             None \<Rightarrow> Inr (None, r, fx)
           | Some c \<Rightarrow>
               (case IsDefault c of
                  None \<Rightarrow> Inl NilDereference
                | Some True \<Rightarrow> Inr (None, r, fx)
                | Some False \<Rightarrow>
                    (case delete api rOpts r (log (Infof ''Start Rule deletion.'') fx) of
                       Inl p \<Rightarrow> Inl p
                     | Inr (Some e, r', fx') \<Rightarrow> Inr (Some e, r', fx')
                     | Inr (None, r', fx') \<Rightarrow>
                         completed ''DELETE'' ''%s rule deleted''
                           [Infof ''Completed Rule deletion. Rule Priority: %s | Condition: %s'']
                           r' fx')))
      | Some d \<Rightarrow>
          (case IsDefault d of
             None \<Rightarrow> Inl NilDereference
           | Some True \<Rightarrow> Inr (None, r\<lparr>rs_current := rs_desired r\<rparr>, fx)
           | Some False \<Rightarrow>
               (case rs_current r of
                  None \<Rightarrow>
                    (case create api rOpts r (log (Infof ''Start Rule creation.'') fx) of
                       Inl p \<Rightarrow> Inl p
                     | Inr (Some e, r', fx') \<Rightarrow> Inr (Some e, r', fx')
                     | Inr (None, r', fx') \<Rightarrow>
                         completed ''CREATE'' ''%s rule created''
                           [Infof ''Completed Rule creation. Rule Priority: %s | Condition: %s'']
                           r' fx')
                | Some c \<Rightarrow>
                    (case needsModification r fx of
                       Inl p \<Rightarrow> Inl p
                     | Inr (False, fx1) \<Rightarrow> Inr (None, r, fx1)
                     | Inr (True, fx1) \<Rightarrow>
                         (case modify api rOpts r fx1 of
                            Inl p \<Rightarrow> Inl p
                          | Inr (Some e, r', fx') \<Rightarrow> Inr (Some e, r', fx')
                          | Inr (None, r', fx') \<Rightarrow>
                              completed ''MODIFY'' ''%s rule modified'' [] r' fx')))))"

definition Reconcile ::
  "ELBV2API \<Rightarrow> ReconcileOptions \<Rightarrow> Rule \<Rightarrow> effects \<Rightarrow> panic + (error option \<times> Rule \<times> effects)" where
  "Reconcile api rOpts r fx =
     (case rs_desired r of
        None \<Rightarrow> Reconcile_switch api rOpts r fx
      | Some d \<Rightarrow>
          (case Reconcile_setArns r (TargetGroups rOpts) (Actions d) fx of
             Inl p \<Rightarrow> Inl p
           | Inr (as, fx1) \<Rightarrow>
               Reconcile_switch api rOpts (r\<lparr>rs_desired := Some (d\<lparr>Actions := as\<rparr>)\<rparr>) fx1))"

definition stripDesiredState :: "Rule \<Rightarrow> Rule" where
  "stripDesiredState r = r\<lparr>rs_desired := None\<rparr>"

definition stripCurrentState :: "Rule \<Rightarrow> Rule" where
  "stripCurrentState r = r\<lparr>rs_current := None\<rparr>"

definition IsDesiredDefault :: "Rule \<Rightarrow> panic + bool" where
  "IsDesiredDefault r =
     (case rs_desired r of
        None \<Rightarrow> Inr False
      | Some d \<Rightarrow> (case IsDefault d of None \<Rightarrow> Inl NilDereference | Some b \<Rightarrow> Inr b))"

section \<open>Load balancer options\<close>

text \<open>\<open>loadBalancerChange\<close> is a Go \<open>uint\<close>, 64 bits wide; the flags are \<open>1 << iota\<close>.
  A \<open>portList\<close> is a slice of \<open>int64\<close>, nil or not; \<open>sort.Sort\<close> orders it by the signed
  value and leaves the sorted slice in the caller's backing array, so the options come back
  with the ports sorted. \<open>reflect.DeepEqual\<close> tells a nil slice from an empty one, as the
  equality of \<open>option\<close> does. The hash of a CIDR list (\<open>util.AWSStringSlice.Hash\<close>) is a
  parameter.\<close>

type_synonym loadBalancerChange = "64 word"

type_synonym portList = "64 word list"

record opts =
  ports :: "portList option"
  inboundCidrs :: "string list"
  webACLId :: "string option"
  managedSG :: "string option"
  managedInstanceSG :: "string option"

record options =
  current :: opts
  desired :: opts

definition securityGroupsModified :: loadBalancerChange where
  "securityGroupsModified = push_bit 0 1"

definition subnetsModified :: loadBalancerChange where
  "subnetsModified = push_bit 1 1"

definition tagsModified :: loadBalancerChange where
  "tagsModified = push_bit 2 1"

definition schemeModified :: loadBalancerChange where
  "schemeModified = push_bit 3 1"

definition attributesModified :: loadBalancerChange where
  "attributesModified = push_bit 4 1"

definition inboundCidrsModified :: loadBalancerChange where
  "inboundCidrsModified = push_bit 5 1"

definition portsModified :: loadBalancerChange where
  "portsModified = push_bit 6 1"

definition ipAddressTypeModified :: loadBalancerChange where
  "ipAddressTypeModified = push_bit 7 1"

definition webACLAssociationModified :: loadBalancerChange where
  "webACLAssociationModified = push_bit 8 1"

definition sort_Sort :: "portList \<Rightarrow> portList" where
  "sort_Sort a = sort_key sint a"

definition options_needsModification ::
  "(string list \<Rightarrow> string) \<Rightarrow> options \<Rightarrow> loadBalancerChange \<times> options" where
  "options_needsModification Hash opt =
     (let changes0 = 0;
          (changes2, opt') =
            (if ports (current opt) \<noteq> None \<and> managedSG (current opt) \<noteq> None
             then (let changes1 =
                         (if Hash (inboundCidrs (current opt)) \<noteq> Hash (inboundCidrs (desired opt))
                          then changes0 OR inboundCidrsModified else changes0);
                       cur = map_option sort_Sort (ports (current opt));
                       des = map_option sort_Sort (ports (desired opt))
                   in ((if des \<noteq> cur then changes1 OR portsModified else changes1),
                       opt\<lparr>current := (current opt)\<lparr>ports := cur\<rparr>,
                           desired := (desired opt)\<lparr>ports := des\<rparr>\<rparr>))
             else (changes0, opt))
      in if (webACLId (desired opt) \<noteq> None \<and> webACLId (current opt) = None)
            \<or> (webACLId (desired opt) = None \<and> webACLId (current opt) \<noteq> None)
            \<or> (webACLId (current opt) \<noteq> None \<and> webACLId (desired opt) \<noteq> None
                \<and> the (webACLId (current opt)) \<noteq> the (webACLId (desired opt)))
         then (changes2 OR webACLAssociationModified, opt')
         else (changes2, opt'))"

section \<open>Well-formed conditions and example inputs\<close>

text \<open>Every condition of the list has its field set (the SDK's decoder and
  \<open>NewDesiredRule\<close> always set it): \<open>conditionToMap\<close> dereferences it.\<close>

definition fields_set :: "RuleCondition list \<Rightarrow> bool" where
  "fields_set cs = list_all (\<lambda>c. Field c \<noteq> None) cs"

definition host_condition :: "string \<Rightarrow> RuleCondition" where
  "host_condition h = \<lparr>Field = Some ''host-header'', Values = [h]\<rparr>"

definition path_condition :: "string \<Rightarrow> RuleCondition" where
  "path_condition p = \<lparr>Field = Some ''path-pattern'', Values = [p]\<rparr>"

text \<open>The rule of the scenarios: priority 5, host \<open>foo.com\<close>, path \<open>/a\<close>, service
  \<open>web\<close> on port 80; the cloud reports its conditions in the other order.\<close>

definition example_desired :: elbv2_Rule where
  "example_desired =
     \<lparr>Actions = [\<lparr>TargetGroupArn = None, Type = Some ''forward''\<rparr>],
      Conditions = [host_condition ''foo.com'', path_condition ''/a''],
      IsDefault = Some False, Priority = Some ''5'', RuleArn = None\<rparr>"

definition example_current :: elbv2_Rule where
  "example_current =
     \<lparr>Actions = [\<lparr>TargetGroupArn = Some ''arn:tg/web'', Type = Some ''forward''\<rparr>],
      Conditions = [path_condition ''/a'', host_condition ''foo.com''],
      IsDefault = Some False, Priority = Some ''5'', RuleArn = Some ''arn:rule/5''\<rparr>"

definition example_service :: service where
  "example_service = \<lparr>name = ''web'', port = IntVal 80, targetPort = 8080\<rparr>"

definition example_rule :: Rule where
  "example_rule =
     \<lparr>svc_current = example_service, svc_desired = example_service,
      rs_current = Some example_current, rs_desired = Some example_desired, deleted = False\<rparr>"

definition example_rOpts :: ReconcileOptions where
  "example_rOpts =
     \<lparr>ListenerArn = Some ''arn:listener'',
      TargetGroups = [\<lparr>tg_SvcName = ''web'', tg_SvcPort = IntVal 80,
                       tg_CurrentARN = Some ''arn:tg/web''\<rparr>]\<rparr>"

definition no_effects :: effects where
  "no_effects = \<lparr>calls = [], events = [], logs = []\<rparr>"

text \<open>A cloud that accepts every call (modify answers with no rule), one that refuses
  every call, and one whose create succeeds with an empty list of rules.\<close>

definition accepting_api :: ELBV2API where
  "accepting_api =
     \<lparr>CreateRule = (\<lambda>inp. Inr [\<lparr>Actions = in_Actions inp, Conditions = in_Conditions inp,
                                    IsDefault = Some False, Priority = Some ''5'',
                                    RuleArn = Some ''arn:rule/5''\<rparr>]),
      ModifyRule = (\<lambda>inp. Inr []),
      DeleteRule = (\<lambda>inp. None)\<rparr>"

definition refusing_api :: ELBV2API where
  "refusing_api =
     \<lparr>CreateRule = (\<lambda>inp. Inl ''AccessDenied''),
      ModifyRule = (\<lambda>inp. Inl ''AccessDenied''),
      DeleteRule = (\<lambda>inp. Some ''AccessDenied'')\<rparr>"

definition empty_api :: ELBV2API where
  "empty_api =
     \<lparr>CreateRule = (\<lambda>inp. Inr []),
      ModifyRule = (\<lambda>inp. Inr []),
      DeleteRule = (\<lambda>inp. None)\<rparr>"

text \<open>The default rule of a listener, as \<open>NewDesiredRule\<close> builds it from priority 0 and
  as the cloud reports it.\<close>

definition default_desired :: elbv2_Rule where
  "default_desired =
     \<lparr>Actions = [\<lparr>TargetGroupArn = None, Type = Some ''forward''\<rparr>],
      Conditions = [], IsDefault = Some True, Priority = Some ''default'', RuleArn = None\<rparr>"

definition default_current :: elbv2_Rule where
  "default_current =
     \<lparr>Actions = [\<lparr>TargetGroupArn = Some ''arn:tg/web'', Type = Some ''forward''\<rparr>],
      Conditions = [], IsDefault = Some True, Priority = Some ''default'',
      RuleArn = Some ''arn:rule/default''\<rparr>"

definition default_rule :: Rule where
  "default_rule =
     \<lparr>svc_current = example_service, svc_desired = example_service,
      rs_current = Some default_current, rs_desired = Some default_desired, deleted = False\<rparr>"

text \<open>Options of a load balancer whose ports differ in order only and whose WAF
  association is new.\<close>

definition example_options :: options where
  "example_options =
     \<lparr>current = \<lparr>ports = Some [443, 80], inboundCidrs = [''10.0.0.0/8''], webACLId = None,
                  managedSG = Some ''sg-1'', managedInstanceSG = None\<rparr>,
      desired = \<lparr>ports = Some [80, 443], inboundCidrs = [''10.0.0.0/8''], webACLId = Some ''acl-1'',
                  managedSG = None, managedInstanceSG = None\<rparr>\<rparr>"

section \<open>Effects that a call adds\<close>

text \<open>Every operation only appends to the effects it is given: \<open>append_effects fx d\<close> is
  \<open>fx\<close> followed by the calls, events and lines of \<open>d\<close>, and \<open>frame\<close> puts \<open>fx\<close> in front
  of the effects of a result. \<open>setTargetGroupArn\<close> is the desired rule after the loop at
  the head of \<open>Reconcile\<close>.\<close>

definition append_effects :: "effects \<Rightarrow> effects \<Rightarrow> effects" where
  "append_effects fx d =
     \<lparr>calls = calls fx @ calls d, events = events fx @ events d, logs = logs fx @ logs d\<rparr>"

definition frame ::
  "effects \<Rightarrow> panic + ('a \<times> effects) \<Rightarrow> panic + ('a \<times> effects)" where
  "frame fx res = (case res of Inl p \<Rightarrow> Inl p | Inr (x, d) \<Rightarrow> Inr (x, append_effects fx d))"

definition frame3 ::
  "effects \<Rightarrow> panic + ('a \<times> 'b \<times> effects) \<Rightarrow> panic + ('a \<times> 'b \<times> effects)" where
  "frame3 fx res = (case res of Inl p \<Rightarrow> Inl p | Inr (x, y, d) \<Rightarrow> Inr (x, y, append_effects fx d))"

definition setTargetGroupArn :: "string option \<Rightarrow> elbv2_Rule \<Rightarrow> elbv2_Rule" where
  "setTargetGroupArn arn d = d\<lparr>Actions := map (\<lambda>a. a\<lparr>TargetGroupArn := arn\<rparr>) (Actions d)\<rparr>"

section \<open>Decimal round trip\<close>

lemma ParseUint_loop_append:
  "ParseUint_loop n (xs @ ys) =
     (case ParseUint_loop n xs of (k, None) \<Rightarrow> ParseUint_loop k ys | (k, Some e) \<Rightarrow> (k, Some e))"
  by (induction xs arbitrary: n) (auto simp: Let_def)

lemma is_digit_digit_char: "0 \<le> d \<Longrightarrow> d < 10 \<Longrightarrow> is_digit (digit_char d)"
  by (simp add: is_digit_def digit_char_def)

lemma of_char_digit_char: "0 \<le> d \<Longrightarrow> d < 10 \<Longrightarrow> (of_char (digit_char d) :: int) = 48 + d"
  by (simp add: digit_char_def)

lemma ParseUint_loop_digit:
  assumes "0 \<le> d" "d < 10" "0 \<le> n" "n * 10 + d \<le> maxUint64"
  shows "ParseUint_loop n [digit_char d] = (n * 10 + d, None)"
proof -
  have "n < maxUint64 div 10 + 1" using assms by (simp add: maxUint64_def)
  then show ?thesis using assms
    by (simp add: is_digit_digit_char of_char_digit_char Let_def)
qed

lemma ParseUint_loop_FormatUint:
  "0 \<le> m \<Longrightarrow> m \<le> maxUint64 \<Longrightarrow> ParseUint_loop 0 (FormatUint m) = (m, None)"
proof (induction m rule: FormatUint.induct)
  case (1 n)
  show ?case
  proof (cases "n < 10")
    case True
    then show ?thesis using ParseUint_loop_digit [of n 0] "1.prems"
      by (subst FormatUint.simps) simp
  next
    case False
    have le: "0 \<le> n div 10" "n div 10 \<le> maxUint64" using "1.prems" by simp_all
    have ih: "ParseUint_loop 0 (FormatUint (n div 10)) = (n div 10, None)"
      using "1.IH" False le by simp
    have "ParseUint_loop (n div 10) [digit_char (n mod 10)] = (n div 10 * 10 + n mod 10, None)"
      using "1.prems" by (intro ParseUint_loop_digit) simp_all
    then show ?thesis using False ih
      by (subst FormatUint.simps) (simp add: ParseUint_loop_append)
  qed
qed

lemma FormatUint_hd: "0 \<le> m \<Longrightarrow> FormatUint m \<noteq> [] \<and> is_digit (hd (FormatUint m))"
proof (induction m rule: FormatUint.induct)
  case (1 n)
  show ?case
  proof (cases "n < 10")
    case True
    then show ?thesis using "1.prems" by (subst (1 2) FormatUint.simps) (simp add: is_digit_digit_char)
  next
    case False
    then show ?thesis using "1.IH" "1.prems" by (subst (1 2) FormatUint.simps) simp
  qed
qed

lemma is_digit_sign: "\<not> is_digit CHR ''-''" "\<not> is_digit CHR ''+''" "\<not> is_digit CHR ''d''"
  by (simp_all add: is_digit_def)

lemma ParseUint_FormatUint: "0 \<le> m \<Longrightarrow> m \<le> maxUint64 \<Longrightarrow> ParseUint (FormatUint m) = (m, None)"
  using FormatUint_hd [of m] by (simp add: ParseUint_def ParseUint_loop_FormatUint)

lemma ParseInt_Sprintf_v:
  assumes "- (2 ^ 63) \<le> n" "n < 2 ^ 63"
  shows "ParseInt (Sprintf_v n) = (n, None)"
proof (cases "n < 0")
  case True
  have m: "0 \<le> - n" "- n \<le> maxUint64" "- n \<le> 2 ^ 63" using assms True by (simp_all add: maxUint64_def)
  show ?thesis using True m(3) ParseUint_FormatUint [OF m(1,2)]
    by (simp add: ParseInt_def Sprintf_v_def)
next
  case False
  have m: "0 \<le> n" "n \<le> maxUint64" using assms False by (simp_all add: maxUint64_def)
  have hd: "hd (FormatUint n) \<noteq> CHR ''-''" "hd (FormatUint n) \<noteq> CHR ''+''"
    using FormatUint_hd [OF m(1)] is_digit_sign by metis+
  show ?thesis using False assms(2) hd FormatUint_hd [OF m(1)] ParseUint_FormatUint [OF m]
    by (simp add: ParseInt_def Sprintf_v_def)
qed

lemma Sprintf_v_not_default: "Sprintf_v n \<noteq> ''default''"
proof
  assume a: "Sprintf_v n = ''default''"
  show False
  proof (cases "n < 0")
    case True
    then show ?thesis using a by (simp add: Sprintf_v_def)
  next
    case False
    then have "hd (FormatUint n) = CHR ''d''" using a by (simp add: Sprintf_v_def)
    then show ?thesis using FormatUint_hd [of n] False is_digit_sign(3) by simp
  qed
qed

lemma NewDesiredRule_Priority:
  "\<exists>d. rs_desired (NewDesiredRule opt) = Some d
       \<and> Priority d = Some (if opt_Priority opt = 0 then ''default'' else Sprintf_v (opt_Priority opt))
       \<and> IsDefault d = Some (opt_Priority opt = 0)"
  by (simp add: NewDesiredRule_def Let_def)

text \<open>
  Claim C9. The priority round-trips: the desired rule built from priority 0 carries
  \<open>''default''\<close>, which \<open>priority\<close> decodes to 0; the desired rule built from any other
  priority \<open>n\<close> of a Go \<open>int\<close> carries the decimal string of \<open>n\<close>, which \<open>priority\<close>
  decodes to \<open>n\<close>; the input of the create call carries this integer. (The input of the
  modify call has no priority field.)
\<close>

theorem priority_round_trip:
  assumes "- (2 ^ 63) \<le> opt_Priority opt" and "opt_Priority opt < 2 ^ 63"
  shows "\<exists>d. rs_desired (NewDesiredRule opt) = Some d
           \<and> Priority d = Some (if opt_Priority opt = 0 then ''default''
                                else Sprintf_v (opt_Priority opt))
           \<and> priority (Some ''default'') = Inr 0
           \<and> priority (Priority d) = Inr (opt_Priority opt)
           \<and> create_input rOpts (NewDesiredRule opt) =
               Inr \<lparr>in_Actions = Actions d, in_Conditions = Conditions d,
                    in_ListenerArn = ListenerArn rOpts, in_Priority = opt_Priority opt\<rparr>"
proof -
  obtain d where d: "rs_desired (NewDesiredRule opt) = Some d"
    and p: "Priority d = Some (if opt_Priority opt = 0 then ''default''
                               else Sprintf_v (opt_Priority opt))"
    using NewDesiredRule_Priority [of opt] by blast
  have dec: "priority (Priority d) = Inr (opt_Priority opt)"
    using p ParseInt_Sprintf_v [OF assms] Sprintf_v_not_default [of "opt_Priority opt"]
    by (simp add: priority_def)
  have dflt: "priority (Some ''default'') = Inr 0"
    by (simp add: priority_def)
  have "create_input rOpts (NewDesiredRule opt) =
          Inr \<lparr>in_Actions = Actions d, in_Conditions = Conditions d,
               in_ListenerArn = ListenerArn rOpts, in_Priority = opt_Priority opt\<rparr>"
    using d dec by (simp add: create_input_def)
  with d p dec dflt show ?thesis by blast
qed

theorem priority_round_trip_witness:
  "\<exists>d. rs_desired (NewDesiredRule
          \<lparr>opt_Priority = 17, Hostname = ''foo.com'', IgnoreHostHeader = Some False,
           Path = ''/a'', SvcName = ''web'', SvcPort = IntVal 80, TargetPort = 8080\<rparr>) = Some d
       \<and> Priority d = Some (Sprintf_v 17)
       \<and> priority (Priority d) = Inr 17"
proof -
  let ?opt = "\<lparr>opt_Priority = 17, Hostname = ''foo.com'', IgnoreHostHeader = Some False,
               Path = ''/a'', SvcName = ''web'', SvcPort = IntVal 80, TargetPort = 8080\<rparr>"
  have lo: "- (2 ^ 63) \<le> opt_Priority ?opt" and hi: "opt_Priority ?opt < 2 ^ 63"
    by simp_all
  obtain d where "rs_desired (NewDesiredRule ?opt) = Some d"
    and "Priority d = Some (if opt_Priority ?opt = 0 then ''default''
                            else Sprintf_v (opt_Priority ?opt))"
    and "priority (Priority d) = Inr (opt_Priority ?opt)"
    using priority_round_trip [OF lo hi, of "\<lparr>ListenerArn = None, TargetGroups = []\<rparr>"]
    by blast
  then show ?thesis by simp
qed

section \<open>Condition sets\<close>

lemma conditionToMap_loop_total:
  "fields_set cs \<Longrightarrow> \<exists>m. conditionToMap_loop acc cs = Inr m"
  by (induction cs arbitrary: acc) (auto simp: fields_set_def)

lemma conditionToMap_total: "fields_set cs \<Longrightarrow> \<exists>m. conditionToMap cs = Inr m"
  by (simp add: conditionToMap_def conditionToMap_loop_total)

lemma conditionToMap_loop_distinct:
  "distinct (map fst acc) \<Longrightarrow> conditionToMap_loop acc cs = Inr m \<Longrightarrow> distinct (map fst m)"
proof (induction cs arbitrary: acc)
  case Nil
  then show ?case by simp
next
  case (Cons c cs)
  then obtain f where f: "Field c = Some f"
    and l: "conditionToMap_loop (AList.update f (Values c) acc) cs = Inr m"
    by (auto split: option.splits)
  have "distinct (map fst (AList.update f (Values c) acc))"
    using Cons.prems(1) by (rule AList.distinct_update)
  then show ?case using l by (rule Cons.IH)
qed

lemma conditionToMap_distinct: "conditionToMap cs = Inr m \<Longrightarrow> distinct (map fst m)"
  using conditionToMap_loop_distinct [of "[]" cs m] by (simp add: conditionToMap_def)

lemma list_all_map_le:
  assumes "distinct (map fst m1)"
  shows "list_all (\<lambda>(k, v). case m2 k of None \<Rightarrow> False | Some val \<Rightarrow> DeepEqual v val) m1
           = (map_of m1 \<subseteq>\<^sub>m m2)"
proof
  assume l: "list_all (\<lambda>(k, v). case m2 k of None \<Rightarrow> False | Some val \<Rightarrow> DeepEqual v val) m1"
  show "map_of m1 \<subseteq>\<^sub>m m2"
    unfolding map_le_def
  proof
    fix k assume "k \<in> dom (map_of m1)"
    then obtain v where v: "map_of m1 k = Some v" by blast
    then have "(k, v) \<in> set m1" by (rule map_of_SomeD)
    with l have "case m2 k of None \<Rightarrow> False | Some val \<Rightarrow> DeepEqual v val"
      by (auto simp: list_all_iff)
    then show "map_of m1 k = m2 k" using v by (auto simp: DeepEqual_def split: option.splits)
  qed
next
  assume le: "map_of m1 \<subseteq>\<^sub>m m2"
  show "list_all (\<lambda>(k, v). case m2 k of None \<Rightarrow> False | Some val \<Rightarrow> DeepEqual v val) m1"
    unfolding list_all_iff
  proof (clarify)
    fix k v assume "(k, v) \<in> set m1"
    then have "map_of m1 k = Some v" using assms by simp
    then have "m2 k = Some v" using le by (metis domI map_le_def)
    then show "case m2 k of None \<Rightarrow> False | Some val \<Rightarrow> DeepEqual v val"
      by (simp add: DeepEqual_def)
  qed
qed

lemma conditionsEqual_map_le:
  assumes "conditionToMap c1 = Inr m1" and "conditionToMap c2 = Inr m2"
  shows "conditionsEqual c1 c2 = Inr (map_of m1 \<subseteq>\<^sub>m map_of m2)"
  using assms list_all_map_le [OF conditionToMap_distinct [OF assms(1)], of "map_of m2"]
  by (simp add: conditionsEqual_def)


lemma conditionToMap_loop_map_of:
  "conditionToMap_loop acc cs = Inr m \<Longrightarrow>
     map_of m = map_of acc ++ map_of (rev (map (\<lambda>c. (the (Field c), Values c)) cs))"
proof (induction cs arbitrary: acc)
  case Nil
  then show ?case by simp
next
  case (Cons c cs)
  then obtain f where f: "Field c = Some f"
    and l: "conditionToMap_loop (AList.update f (Values c) acc) cs = Inr m"
    by (auto split: option.splits)
  show ?case using Cons.IH [OF l] f
    by (simp add: AList.update_conv' map_add_upd_left fun_eq_iff map_add_def split: option.splits)
qed

lemma condition_pairs_distinct:
  assumes "fields_set cs" and "distinct (map Field cs)"
  shows "distinct (map fst (map (\<lambda>c. (the (Field c), Values c)) cs))"
proof -
  have e: "map Field cs = map Some (map (\<lambda>c. the (Field c)) cs)"
    using assms(1) by (induction cs) (auto simp: fields_set_def)
  have "distinct (map Some (map (\<lambda>c. the (Field c)) cs))"
    using assms(2) unfolding e .
  moreover have "distinct (map Some xs) \<Longrightarrow> distinct xs" for xs :: "string list"
    by (simp add: distinct_map)
  ultimately have "distinct (map (\<lambda>c. the (Field c)) cs)" by blast
  then show ?thesis by (simp add: comp_def)
qed

lemma conditionToMap_map_of:
  assumes "conditionToMap cs = Inr m" and "fields_set cs" and "distinct (map Field cs)"
  shows "map_of m = map_of (map (\<lambda>c. (the (Field c), Values c)) cs)"
proof -
  let ?ps = "map (\<lambda>c. (the (Field c), Values c)) cs"
  have d: "distinct (map fst ?ps)" using condition_pairs_distinct [OF assms(2,3)] .
  then have "distinct (map fst (rev ?ps))" by (simp add: rev_map [symmetric])
  then have "map_of (rev ?ps) = map_of ?ps"
    using map_of_inject_set [of "rev ?ps" ?ps] d by simp
  then show ?thesis
    using conditionToMap_loop_map_of [of "[]" cs m] assms(1)
    by (simp add: conditionToMap_def)
qed

text \<open>The order of the conditions does not matter: two lists with the same conditions,
  no field twice, are judged equal.\<close>

lemma conditionsEqual_rearranged:
  assumes "fields_set c1" and "distinct (map Field c1)" and "distinct (map Field c2)"
    and "set c2 = set c1"
  shows "conditionsEqual c1 c2 = Inr True"
proof -
  have f2: "fields_set c2" using assms(1,4) by (simp add: fields_set_def list_all_iff)
  obtain m1 m2 where m: "conditionToMap c1 = Inr m1" "conditionToMap c2 = Inr m2"
    using conditionToMap_total [OF assms(1)] conditionToMap_total [OF f2] by blast
  let ?p = "\<lambda>c. (the (Field c), Values c)"
  have "set (map ?p c1) = set (map ?p c2)" using assms(4) by simp
  then have "map_of (map ?p c1) = map_of (map ?p c2)"
    using map_of_inject_set [OF condition_pairs_distinct [OF assms(1,2)]
            condition_pairs_distinct [OF f2 assms(3)]]
    by blast
  then have "map_of m1 = map_of m2"
    using conditionToMap_map_of [OF m(1) assms(1,2)] conditionToMap_map_of [OF m(2) f2 assms(3)]
    by simp
  then show ?thesis using conditionsEqual_map_le [OF m] by simp
qed

text \<open>
  Claim C1. \<open>conditionsEqual\<close> is to return true exactly when the two lists have the same
  fields with equal value lists. The code looks up every field of the first list in the
  second and never the fields of the second in the first: a second list with one more
  field is judged equal.
\<close>

theorem conditionsEqual_extra_field:
  "conditionsEqual [host_condition ''foo.com'']
                   [host_condition ''foo.com'', path_condition ''/a''] = Inr True"
  by (simp add: conditionsEqual_def conditionToMap_def host_condition_def path_condition_def
        DeepEqual_def)

section \<open>The modification verdict\<close>

lemma needsModification_current_nil:
  "rs_current r = None \<Longrightarrow> needsModification r fx = Inr (True, log (Debugf ''Current is nil'') fx)"
  by (simp add: needsModification_def)




section \<open>Target resolution and effects\<close>

lemma LookupByBackend_from_range:
  "LookupByBackend_from p tgs n q = - 1 \<or>
   (p \<le> LookupByBackend_from p tgs n q \<and> LookupByBackend_from p tgs n q < p + int (length tgs))"
  by (induction tgs arbitrary: p) (auto, (smt (verit))+)

lemma LookupByBackend_range:
  "\<not> LookupByBackend tgs n q < 0 \<Longrightarrow> nat (LookupByBackend tgs n q) < length tgs"
  using LookupByBackend_from_range [of 0 tgs n q] by (auto simp: LookupByBackend_def)

lemma append_effects_simps [simp]:
  "calls (append_effects fx d) = calls fx @ calls d"
  "events (append_effects fx d) = events fx @ events d"
  "logs (append_effects fx d) = logs fx @ logs d"
  by (simp_all add: append_effects_def)

lemma append_effects_no_effects [simp]: "append_effects fx no_effects = fx"
  by (simp add: append_effects_def no_effects_def)

lemma append_effects_assoc:
  "append_effects (append_effects fx d) d' = append_effects fx (append_effects d d')"
  by (simp add: append_effects_def)

lemma log_append: "log l fx = append_effects fx (log l no_effects)"
  by (simp add: append_effects_def log_def no_effects_def)
lemma call_append: "call l fx = append_effects fx (call l no_effects)"
  by (simp add: append_effects_def call_def no_effects_def)
lemma emit_append: "emit l fx = append_effects fx (emit l no_effects)"
  by (simp add: append_effects_def emit_def no_effects_def)

lemma Rule_TargetGroupArn_frame:
  "\<exists>arn d. calls d = [] \<and> events d = [] \<and>
      (\<forall>fx. Rule_TargetGroupArn r tgs fx = Inr (arn, append_effects fx d))"
proof -
  let ?i = "LookupByBackend tgs (name (svc_desired r)) (port (svc_desired r))"
  show ?thesis
  proof (cases "?i < 0")
    case True
    let ?d = "log (Errorf ''Failed to locate TargetGroup related to this service: %s:%s'') no_effects"
    have "\<forall>fx. Rule_TargetGroupArn r tgs fx = Inr (None, append_effects fx ?d)"
      using True by (simp add: Rule_TargetGroupArn_def Let_def log_append [symmetric])
    moreover have "calls ?d = [] \<and> events ?d = []" by (simp add: log_def no_effects_def)
    ultimately show ?thesis by blast
  next
    case False
    then have rg: "\<not> length tgs \<le> nat ?i" using LookupByBackend_range [OF False] by simp
    show ?thesis
    proof (cases "tg_CurrentARN (tgs ! nat ?i)")
      case None
      let ?d = "log (Errorf ''Located TargetGroup but no known (current) state found: %s:%s'') no_effects"
      have "\<forall>fx. Rule_TargetGroupArn r tgs fx = Inr (None, append_effects fx ?d)"
        using False rg None by (simp add: Rule_TargetGroupArn_def Let_def log_append [symmetric])
      moreover have "calls ?d = [] \<and> events ?d = []" by (simp add: log_def no_effects_def)
      ultimately show ?thesis by blast
    next
      case (Some a)
      have "\<forall>fx. Rule_TargetGroupArn r tgs fx = Inr (Some a, append_effects fx no_effects)"
        using False rg Some by (simp add: Rule_TargetGroupArn_def Let_def)
      moreover have "calls no_effects = [] \<and> events no_effects = []" by (simp add: no_effects_def)
      ultimately show ?thesis by blast
    qed
  qed
qed

lemma Reconcile_setArns_frame:
  assumes "Rule_TargetGroupArn r tgs fx0 = Inr (arn, fx0')"
  shows "\<exists>d. calls d = [] \<and> events d = [] \<and>
      (\<forall>fx. Reconcile_setArns r tgs as fx =
              Inr (map (\<lambda>a. a\<lparr>TargetGroupArn := arn\<rparr>) as, append_effects fx d))"
proof -
  obtain arn' d1 where d1: "calls d1 = []" "events d1 = []"
    and t: "\<And>fx. Rule_TargetGroupArn r tgs fx = Inr (arn', append_effects fx d1)"
    using Rule_TargetGroupArn_frame [of r tgs] by blast
  have arn: "arn' = arn" using t [of fx0] assms by simp
  show ?thesis
  proof (induction as)
    case Nil
    have "\<forall>fx. Reconcile_setArns r tgs [] fx = Inr (map (\<lambda>a. a\<lparr>TargetGroupArn := arn\<rparr>) [], append_effects fx no_effects)"
      by simp
    moreover have "calls no_effects = [] \<and> events no_effects = []" by (simp add: no_effects_def)
    ultimately show ?case by blast
  next
    case (Cons a as)
    then obtain d where d: "calls d = []" "events d = []"
      and s: "\<And>fx. Reconcile_setArns r tgs as fx =
              Inr (map (\<lambda>a. a\<lparr>TargetGroupArn := arn\<rparr>) as, append_effects fx d)"
      by blast
    have "\<forall>fx. Reconcile_setArns r tgs (a # as) fx =
              Inr (map (\<lambda>a. a\<lparr>TargetGroupArn := arn\<rparr>) (a # as), append_effects fx (append_effects d1 d))"
      using t s arn by (simp add: append_effects_assoc)
    moreover have "calls (append_effects d1 d) = [] \<and> events (append_effects d1 d) = []"
      using d d1 by simp
    ultimately show ?case by blast
  qed
qed


lemma frame_simps [simp]:
  "frame fx (Inl p) = Inl p"
  "frame fx (Inr (x, d)) = Inr (x, append_effects fx d)"
  by (simp_all add: frame_def)

lemma effects_append_simps [simp]:
  "log l (append_effects fx d) = append_effects fx (log l d)"
  "call c (append_effects fx d) = append_effects fx (call c d)"
  "emit e (append_effects fx d) = append_effects fx (emit e d)"
  by (simp_all add: append_effects_def log_def call_def emit_def)

lemma frame3_simps [simp]:
  "frame3 fx (Inl p) = Inl p"
  "frame3 fx (Inr (x, y, d)) = Inr (x, y, append_effects fx d)"
  by (simp_all add: frame3_def)

lemma create_frame:
  "create api rOpts r (append_effects fx d) = frame3 fx (create api rOpts r d)"
  by (simp add: create_def split: sum.splits list.splits)

lemma modify_frame:
  "modify api rOpts r (append_effects fx d) = frame3 fx (modify api rOpts r d)"
  by (simp add: modify_def Let_def split: sum.splits option.splits)

lemma delete_frame:
  "delete api rOpts r (append_effects fx d) = frame3 fx (delete api rOpts r d)"
  by (simp add: delete_def Let_def split: sum.splits option.splits bool.splits)

lemma needsModification_frame:
  "needsModification r (append_effects fx d) = frame fx (needsModification r d)"
  by (simp add: needsModification_def split: sum.splits option.splits)

lemma completed_frame:
  "completed a b ls r (append_effects fx d) = frame3 fx (completed a b ls r d)"
  by (simp add: completed_def append_effects_def emit_def split: option.splits)

lemma Reconcile_switch_frame:
  "Reconcile_switch api rOpts r (append_effects fx d) = frame3 fx (Reconcile_switch api rOpts r d)"
proof (cases "rs_desired r")
  case None
  note des = this
  show ?thesis
  proof (cases "rs_current r")
    case None
    then show ?thesis using des by (simp add: Reconcile_switch_def)
  next
    case (Some c)
    show ?thesis
    proof (cases "IsDefault c = Some False")
      case False
      then show ?thesis using des Some
        by (simp add: Reconcile_switch_def split: option.splits bool.splits)
    next
      case True
      show ?thesis
      proof (cases "delete api rOpts r (log (Infof ''Start Rule deletion.'') d)")
        case (Inl p)
        then show ?thesis using des Some True
          by (simp add: Reconcile_switch_def delete_frame)
      next
        case (Inr res)
        obtain e r' d' where res: "res = (e, r', d')" by (cases res)
        show ?thesis using des Some True Inr res
          by (cases e) (simp_all add: Reconcile_switch_def delete_frame completed_frame)
      qed
    qed
  qed
next
  case (Some dd)
  note des = this
  show ?thesis
  proof (cases "IsDefault dd = Some False")
    case False
    then show ?thesis using des
      by (simp add: Reconcile_switch_def split: option.splits bool.splits)
  next
    case True
    note nd = this
    show ?thesis
    proof (cases "rs_current r")
      case None
      show ?thesis
      proof (cases "create api rOpts r (log (Infof ''Start Rule creation.'') d)")
        case (Inl p)
        then show ?thesis using des nd None
          by (simp add: Reconcile_switch_def create_frame)
      next
        case (Inr res)
        obtain e r' d' where res: "res = (e, r', d')" by (cases res)
        show ?thesis using des nd None Inr res
          by (cases e) (simp_all add: Reconcile_switch_def create_frame completed_frame)
      qed
    next
      case (Some c)
      show ?thesis
      proof (cases "needsModification r d")
        case (Inl p)
        then show ?thesis using des nd Some
          by (simp add: Reconcile_switch_def needsModification_frame)
      next
        case (Inr nm)
        obtain b d1 where nm: "nm = (b, d1)" by (cases nm)
        show ?thesis
        proof (cases b)
          case False
          then show ?thesis using des nd Some Inr nm
            by (simp add: Reconcile_switch_def needsModification_frame)
        next
          case True
          show ?thesis
          proof (cases "modify api rOpts r d1")
            case (Inl p)
            then show ?thesis using des nd Some Inr nm True
              by (simp add: Reconcile_switch_def needsModification_frame modify_frame)
          next
            case (Inr res)
            obtain e r' d' where res: "res = (e, r', d')" by (cases res)
            show ?thesis using des nd Some \<open>needsModification r d = Inr nm\<close> nm True Inr res
              by (cases e) (simp_all add: Reconcile_switch_def needsModification_frame
                    modify_frame completed_frame)
          qed
        qed
      qed
    qed
  qed
qed


section \<open>Reconcile\<close>

lemma Reconcile_switch_append:
  "Reconcile_switch api rOpts r fx = frame3 fx (Reconcile_switch api rOpts r no_effects)"
  using Reconcile_switch_frame [of api rOpts r fx no_effects] by simp

lemma Rule_TargetGroupArn_desired [simp]:
  "Rule_TargetGroupArn (r\<lparr>rs_desired := x\<rparr>) tgs fx = Rule_TargetGroupArn r tgs fx"
  by (simp add: Rule_TargetGroupArn_def)

lemma setTargetGroupArn_idem [simp]:
  "setTargetGroupArn arn (setTargetGroupArn arn d) = setTargetGroupArn arn d"
  by (simp add: setTargetGroupArn_def)

lemma setTargetGroupArn_fields [simp]:
  "Conditions (setTargetGroupArn arn d) = Conditions d"
  "IsDefault (setTargetGroupArn arn d) = IsDefault d"
  "Priority (setTargetGroupArn arn d) = Priority d"
  "RuleArn (setTargetGroupArn arn d) = RuleArn d"
  "Actions (setTargetGroupArn arn d) = map (\<lambda>a. a\<lparr>TargetGroupArn := arn\<rparr>) (Actions d)"
  by (simp_all add: setTargetGroupArn_def)

lemma Reconcile_desired:
  assumes "rs_desired r = Some d"
    and "Rule_TargetGroupArn r (TargetGroups rOpts) fx0 = Inr (arn, fx0')"
  shows "\<exists>dl. calls dl = [] \<and> events dl = [] \<and>
           (\<forall>fx. Reconcile api rOpts r fx =
                   Reconcile_switch api rOpts (r\<lparr>rs_desired := Some (setTargetGroupArn arn d)\<rparr>)
                     (append_effects fx dl))"
proof -
  obtain dl where dl: "calls dl = []" "events dl = []"
    and s: "\<And>fx. Reconcile_setArns r (TargetGroups rOpts) (Actions d) fx =
              Inr (map (\<lambda>a. a\<lparr>TargetGroupArn := arn\<rparr>) (Actions d), append_effects fx dl)"
    using Reconcile_setArns_frame [OF assms(2), of "Actions d"] by blast
  have "\<forall>fx. Reconcile api rOpts r fx =
                   Reconcile_switch api rOpts (r\<lparr>rs_desired := Some (setTargetGroupArn arn d)\<rparr>)
                     (append_effects fx dl)"
    using assms(1) s by (simp add: Reconcile_def setTargetGroupArn_def)
  with dl show ?thesis by blast
qed

lemma Rule_TargetGroupArn_total:
  "\<exists>arn fx'. Rule_TargetGroupArn r tgs fx = Inr (arn, fx')"
  using Rule_TargetGroupArn_frame [of r tgs] by blast

text \<open>
  Claim C4. Where the default rule is involved, \<open>Reconcile\<close> issues no cloud call and
  returns no error: with a desired rule that is the default one, whatever the current
  state, the current rule becomes the desired one (its target ARNs resolved); with no
  desired rule and a current rule that is the default one, nothing changes at all. On a
  current default rule \<open>delete\<close> itself issues no call either.
\<close>

theorem default_rule_untouched:
  "(rs_desired r = Some d \<and> IsDefault d = Some True \<longrightarrow>
      (\<exists>arn fx1 fx'. Rule_TargetGroupArn r (TargetGroups rOpts) fx = Inr (arn, fx1)
         \<and> Reconcile api rOpts r fx =
             Inr (None, r\<lparr>rs_desired := Some (setTargetGroupArn arn d),
                           rs_current := Some (setTargetGroupArn arn d)\<rparr>, fx')
         \<and> calls fx' = calls fx \<and> events fx' = events fx))
   \<and> (rs_desired r = None \<and> rs_current r = Some c \<and> IsDefault c = Some True \<longrightarrow>
        Reconcile api rOpts r fx = Inr (None, r, fx))
   \<and> (rs_current r = Some c \<and> IsDefault c = Some True \<longrightarrow>
        (\<exists>fx'. delete api rOpts r fx = Inr (None, r, fx')
           \<and> calls fx' = calls fx \<and> events fx' = events fx))"
proof (intro conjI impI)
  assume a: "rs_desired r = Some d \<and> IsDefault d = Some True"
  obtain arn fx1 where t: "Rule_TargetGroupArn r (TargetGroups rOpts) fx = Inr (arn, fx1)"
    using Rule_TargetGroupArn_total by blast
  obtain dl where dl: "calls dl = []" "events dl = []"
    and rc: "\<And>fx. Reconcile api rOpts r fx =
                   Reconcile_switch api rOpts (r\<lparr>rs_desired := Some (setTargetGroupArn arn d)\<rparr>)
                     (append_effects fx dl)"
    using Reconcile_desired [OF conjunct1 [OF a] t] by blast
  have "Reconcile api rOpts r fx =
          Inr (None, r\<lparr>rs_desired := Some (setTargetGroupArn arn d),
                        rs_current := Some (setTargetGroupArn arn d)\<rparr>, append_effects fx dl)"
    using a by (simp add: rc Reconcile_switch_def)
  moreover have "calls (append_effects fx dl) = calls fx" "events (append_effects fx dl) = events fx"
    using dl by simp_all
  ultimately show "\<exists>arn fx1 fx'. Rule_TargetGroupArn r (TargetGroups rOpts) fx = Inr (arn, fx1)
         \<and> Reconcile api rOpts r fx =
             Inr (None, r\<lparr>rs_desired := Some (setTargetGroupArn arn d),
                           rs_current := Some (setTargetGroupArn arn d)\<rparr>, fx')
         \<and> calls fx' = calls fx \<and> events fx' = events fx"
    using t by blast
next
  assume "rs_desired r = None \<and> rs_current r = Some c \<and> IsDefault c = Some True"
  then show "Reconcile api rOpts r fx = Inr (None, r, fx)"
    by (simp add: Reconcile_def Reconcile_switch_def)
next
  assume "rs_current r = Some c \<and> IsDefault c = Some True"
  then show "\<exists>fx'. delete api rOpts r fx = Inr (None, r, fx')
           \<and> calls fx' = calls fx \<and> events fx' = events fx"
    by (simp add: delete_def log_def)
qed

text \<open>
  Claim C5. With no desired rule and a current rule that is not the default one (its
  priority set, which the events print), \<open>Reconcile\<close> issues one delete call by the ARN
  of the current rule. When the call succeeds the rule is marked deleted, its current
  snapshot kept, and a normal event is emitted; when it fails the wrapped error is
  returned, a warning event is emitted and the rule is unchanged.
\<close>

theorem delete_non_default:
  assumes "rs_desired r = None" and "rs_current r = Some c"
    and "IsDefault c = Some False" and "Priority c = Some p"
  shows "Reconcile api rOpts r fx =
     (case DeleteRule api \<lparr>del_RuleArn = RuleArn c\<rparr> of
        None \<Rightarrow>
          Inr (None, r\<lparr>deleted := True\<rparr>,
               fx\<lparr>calls := calls fx @ [DeleteRule_call \<lparr>del_RuleArn = RuleArn c\<rparr>],
                  events := events fx @
                    [Eventf EventTypeNormal ''DELETE'' ''%s rule deleted'' [Str p]],
                  logs := logs fx @
                    [Infof ''Start Rule deletion.'',
                     Infof ''Completed Rule deletion. Rule Priority: %s | Condition: %s'']\<rparr>)
      | Some err \<Rightarrow>
          Inr (Some (fmt_Errorf ''Failed Rule deletion. Error: %s'' [Str err]), r,
               fx\<lparr>calls := calls fx @ [DeleteRule_call \<lparr>del_RuleArn = RuleArn c\<rparr>],
                  events := events fx @
                    [Eventf EventTypeWarning ''ERROR'' ''Error deleting %s rule: %s''
                       [Str p, Str err]],
                  logs := logs fx @ [Infof ''Start Rule deletion.'']\<rparr>))"
  using assms
  by (simp add: Reconcile_def Reconcile_switch_def delete_def completed_def
        log_def call_def emit_def split: option.splits)

text \<open>
  Claim C7. When the modify call succeeds with an empty list of rules, \<open>modify\<close> returns
  no error, keeps the current snapshot and adopts the desired service binding as the
  current one.
\<close>

theorem modify_zero_rules:
  assumes "rs_desired r = Some d" and "rs_current r = Some c"
    and "ModifyRule api \<lparr>mod_Actions = Actions d, mod_Conditions = Conditions d,
                          mod_RuleArn = RuleArn c\<rparr> = Inr []"
  shows "modify api rOpts r fx =
           Inr (None, r\<lparr>svc_current := svc_desired r\<rparr>,
                call (ModifyRule_call \<lparr>mod_Actions = Actions d, mod_Conditions = Conditions d,
                                        mod_RuleArn = RuleArn c\<rparr>) fx)"
  using assms by (simp add: modify_def modify_input_def)

text \<open>
  Claim C10. \<open>create\<close> indexes the first rule of a successful response without checking
  the length: on an empty list it panics with an index out of range, on a non-empty list
  it adopts the first rule and the desired service binding; \<open>modify\<close> returns on an empty
  list.
\<close>

theorem create_first_rule_unchecked:
  assumes "create_input rOpts r = Inr inp"
  shows "(CreateRule api inp = Inr [] \<longrightarrow> create api rOpts r fx = Inl IndexOutOfRange)
       \<and> (\<forall>x xs. CreateRule api inp = Inr (x # xs) \<longrightarrow>
             create api rOpts r fx =
               Inr (None, r\<lparr>rs_current := Some x, svc_current := svc_desired r\<rparr>,
                    call (CreateRule_call inp) fx))
       \<and> (\<forall>minp. modify_input r = Inr minp \<and> ModifyRule api minp = Inr [] \<longrightarrow>
             (\<exists>res. modify api rOpts r fx = Inr res))"
  using assms by (simp add: create_def modify_def)


lemma create_error:
  "create api rOpts r fx = Inr (Some e, r', fx') \<Longrightarrow> r' = r \<and> (\<exists>c. calls fx' = calls fx @ [c])"
  by (auto simp: create_def call_def emit_def split: sum.splits list.splits)

lemma modify_error:
  "modify api rOpts r fx = Inr (Some e, r', fx') \<Longrightarrow> r' = r \<and> (\<exists>c. calls fx' = calls fx @ [c])"
  by (auto simp: modify_def Let_def call_def emit_def split: sum.splits option.splits)

lemma delete_error:
  "delete api rOpts r fx = Inr (Some e, r', fx') \<Longrightarrow> r' = r \<and> (\<exists>c. calls fx' = calls fx @ [c])"
  by (auto simp: delete_def Let_def call_def emit_def log_def split: option.splits bool.splits)

lemma needsModification_calls:
  "needsModification r fx = Inr (b, fx1) \<Longrightarrow> calls fx1 = calls fx"
  by (auto simp: needsModification_def log_def split: option.splits sum.splits if_splits)

lemma completed_no_error: "completed a b ls r fx \<noteq> Inr (Some e, r', fx')"
  by (simp add: completed_def split: option.splits)

lemma Reconcile_switch_error:
  assumes "Reconcile_switch api rOpts r fx = Inr (Some e, r', fx')"
  shows "r' = r \<and> (\<exists>c. calls fx' = calls fx @ [c])"
proof (cases "rs_desired r")
  case None
  note des = this
  show ?thesis
  proof (cases "rs_current r")
    case None
    then show ?thesis using des assms by (simp add: Reconcile_switch_def)
  next
    case (Some c)
    show ?thesis
    proof (cases "IsDefault c = Some False")
      case False
      then show ?thesis using des Some assms
        by (simp add: Reconcile_switch_def split: option.splits bool.splits)
    next
      case True
      let ?fx = "log (Infof ''Start Rule deletion.'') fx"
      have c: "calls ?fx = calls fx" by (simp add: log_def)
      show ?thesis
      proof (cases "delete api rOpts r ?fx")
        case (Inl p)
        then show ?thesis using des Some True assms by (simp add: Reconcile_switch_def)
      next
        case (Inr res)
        obtain e1 r1 d1 where res: "res = (e1, r1, d1)" by (cases res)
        show ?thesis
        proof (cases e1)
          case None
          then show ?thesis using des Some True Inr res assms completed_no_error
            by (simp add: Reconcile_switch_def)
        next
          case (Some e2)
          then have "delete api rOpts r ?fx = Inr (Some e, r', fx')"
            using des \<open>rs_current r = Some c\<close> True Inr res assms
            by (simp add: Reconcile_switch_def)
          from delete_error [OF this] c show ?thesis by simp
        qed
      qed
    qed
  qed
next
  case (Some dd)
  note des = this
  show ?thesis
  proof (cases "IsDefault dd = Some False")
    case False
    then show ?thesis using des assms
      by (simp add: Reconcile_switch_def split: option.splits bool.splits)
  next
    case True
    note nd = this
    show ?thesis
    proof (cases "rs_current r")
      case None
      let ?fx = "log (Infof ''Start Rule creation.'') fx"
      have c: "calls ?fx = calls fx" by (simp add: log_def)
      show ?thesis
      proof (cases "create api rOpts r ?fx")
        case (Inl p)
        then show ?thesis using des nd None assms by (simp add: Reconcile_switch_def)
      next
        case (Inr res)
        obtain e1 r1 d1 where res: "res = (e1, r1, d1)" by (cases res)
        show ?thesis
        proof (cases e1)
          case None
          then show ?thesis using des nd \<open>rs_current r = None\<close> Inr res assms completed_no_error
            by (simp add: Reconcile_switch_def)
        next
          case (Some e2)
          then have "create api rOpts r ?fx = Inr (Some e, r', fx')"
            using des nd None Inr res assms by (simp add: Reconcile_switch_def)
          from create_error [OF this] c show ?thesis by simp
        qed
      qed
    next
      case (Some c)
      show ?thesis
      proof (cases "needsModification r fx")
        case (Inl p)
        then show ?thesis using des nd Some assms by (simp add: Reconcile_switch_def)
      next
        case (Inr nm)
        obtain b fx1 where nm: "nm = (b, fx1)" by (cases nm)
        have c: "calls fx1 = calls fx" using needsModification_calls Inr nm by blast
        show ?thesis
        proof (cases b)
          case False
          then show ?thesis using des nd Some Inr nm assms by (simp add: Reconcile_switch_def)
        next
          case True
          show ?thesis
          proof (cases "modify api rOpts r fx1")
            case (Inl p)
            then show ?thesis using des nd Some \<open>needsModification r fx = Inr nm\<close> nm True assms
              by (simp add: Reconcile_switch_def)
          next
            case (Inr res)
            obtain e1 r1 d1 where res: "res = (e1, r1, d1)" by (cases res)
            show ?thesis
            proof (cases e1)
              case None
              then show ?thesis
                using des nd Some \<open>needsModification r fx = Inr nm\<close> nm True Inr res assms
                  completed_no_error
                by (simp add: Reconcile_switch_def)
            next
              case (Some e2)
              then have "modify api rOpts r fx1 = Inr (Some e, r', fx')"
                using des nd \<open>rs_current r = Some c\<close> \<open>needsModification r fx = Inr nm\<close> nm True
                  Inr res assms
                by (simp add: Reconcile_switch_def)
              from modify_error [OF this] c show ?thesis by simp
            qed
          qed
        qed
      qed
    qed
  qed
qed


lemma Reconcile_switch_retry:
  assumes "Reconcile_switch api rOpts r fx = Inr (Some e, r', fx')"
  shows "r' = r \<and> (\<exists>c. calls fx' = calls fx @ [c] \<and>
           (\<forall>fx2. \<exists>fx2'. Reconcile_switch api rOpts r fx2 = Inr (Some e, r, fx2')
                      \<and> calls fx2' = calls fx2 @ [c]))"
proof -
  have r: "r' = r" using Reconcile_switch_error [OF assms] by simp
  obtain d0 where d0: "Reconcile_switch api rOpts r no_effects = Inr (Some e, r, d0)"
    using assms r Reconcile_switch_append [of api rOpts r fx]
    by (cases "Reconcile_switch api rOpts r no_effects") (auto simp: frame3_def)
  obtain c where c: "calls d0 = [c]"
    using Reconcile_switch_error [OF d0] by (auto simp: no_effects_def)
  have all: "Reconcile_switch api rOpts r fx2 = Inr (Some e, r, append_effects fx2 d0)" for fx2
    using d0 Reconcile_switch_append [of api rOpts r fx2] by simp
  have "fx' = append_effects fx d0" using all [of fx] assms by simp
  then have "calls fx' = calls fx @ [c]" using c by simp
  moreover have "\<forall>fx2. \<exists>fx2'. Reconcile_switch api rOpts r fx2 = Inr (Some e, r, fx2')
                      \<and> calls fx2' = calls fx2 @ [c]"
    using all c by (metis append_effects_simps(1))
  ultimately show ?thesis using r by blast
qed

lemma Reconcile_retry:
  assumes "Reconcile api rOpts r fx = Inr (Some e, r', fx')"
  shows "rs_current r' = rs_current r \<and> svc_current r' = svc_current r \<and> deleted r' = deleted r
       \<and> (\<exists>c. calls fx' = calls fx @ [c] \<and>
           (\<forall>fx2. \<exists>fx2'. Reconcile api rOpts r' fx2 = Inr (Some e, r', fx2')
                      \<and> calls fx2' = calls fx2 @ [c]))"
proof (cases "rs_desired r")
  case None
  then have eq: "Reconcile api rOpts r x = Reconcile_switch api rOpts r x" for x
    by (simp add: Reconcile_def)
  from Reconcile_switch_retry [of api rOpts r fx e r' fx'] assms eq
  show ?thesis by auto
next
  case (Some d)
  obtain arn fx1 where t: "Rule_TargetGroupArn r (TargetGroups rOpts) fx = Inr (arn, fx1)"
    using Rule_TargetGroupArn_total by blast
  let ?r1 = "r\<lparr>rs_desired := Some (setTargetGroupArn arn d)\<rparr>"
  obtain dl where dl: "calls dl = []"
    and rc: "\<And>x. Reconcile api rOpts r x = Reconcile_switch api rOpts ?r1 (append_effects x dl)"
    using Reconcile_desired [OF Some t] by blast
  have sw: "Reconcile_switch api rOpts ?r1 (append_effects fx dl) = Inr (Some e, r', fx')"
    using assms rc by simp
  from Reconcile_switch_retry [OF sw]
  obtain c where r: "r' = ?r1" and c: "calls fx' = calls (append_effects fx dl) @ [c]"
    and all: "\<And>x. \<exists>x'. Reconcile_switch api rOpts ?r1 x = Inr (Some e, ?r1, x')
                      \<and> calls x' = calls x @ [c]"
    by blast
  have t1: "Rule_TargetGroupArn ?r1 (TargetGroups rOpts) fx = Inr (arn, fx1)"
    using t by simp
  have d1: "rs_desired ?r1 = Some (setTargetGroupArn arn d)" by simp
  obtain dl' where dl': "calls dl' = []"
    and rc': "\<And>x. Reconcile api rOpts ?r1 x = Reconcile_switch api rOpts ?r1 (append_effects x dl')"
    using Reconcile_desired [OF d1 t1, of api] by auto
  have "\<exists>fx2'. Reconcile api rOpts r' fx2 = Inr (Some e, r', fx2')
                      \<and> calls fx2' = calls fx2 @ [c]" for fx2
    using all [of "append_effects fx2 dl'"] rc' [of fx2] r dl' by simp
  moreover have "calls fx' = calls fx @ [c]" using c dl by simp
  ultimately show ?thesis using r by auto
qed

text \<open>
  Claim C6. When the create or the modify call fails, the wrapped error is returned with a
  warning event and the rule is unchanged; and whenever \<open>Reconcile\<close> returns an error,
  the current snapshot, the current service binding and the deleted flag are those of
  before, and a second pass (against the same cloud) issues the same call again.
\<close>

theorem failed_call_keeps_current:
  "(create_input rOpts r = Inr inp \<and> CreateRule api inp = Inl err \<longrightarrow>
      create api rOpts r fx =
        Inr (Some (fmt_Errorf ''Failed Rule creation. Rule: %s | Error: %s''
                     [Prettify_Rule (rs_desired r), Str err]),
             r,
             emit (Eventf EventTypeWarning ''ERROR'' ''Error creating %v rule: %s''
                     [Int64 (in_Priority inp), Str err])
               (call (CreateRule_call inp) fx)))
   \<and> (modify_input r = Inr minp \<and> mod_RuleArn minp = Some arn \<and> ModifyRule api minp = Inl err \<longrightarrow>
      modify api rOpts r fx =
        Inr (Some (fmt_Errorf (''Error modifying rule '' @ arn @ '': '' @ err) []),
             r,
             emit (Eventf EventTypeWarning ''ERROR'' (''Error modifying rule '' @ arn @ '': '' @ err) [])
               (call (ModifyRule_call minp) fx)))
   \<and> (Reconcile api rOpts r fx = Inr (Some e, r', fx') \<longrightarrow>
        rs_current r' = rs_current r \<and> svc_current r' = svc_current r \<and> deleted r' = deleted r
        \<and> (\<exists>c. calls fx' = calls fx @ [c] \<and>
             (\<forall>fx2. \<exists>fx2'. Reconcile api rOpts r' fx2 = Inr (Some e, r', fx2')
                        \<and> calls fx2' = calls fx2 @ [c])))"
proof (intro conjI impI)
  assume "create_input rOpts r = Inr inp \<and> CreateRule api inp = Inl err"
  then show "create api rOpts r fx =
        Inr (Some (fmt_Errorf ''Failed Rule creation. Rule: %s | Error: %s''
                     [Prettify_Rule (rs_desired r), Str err]),
             r,
             emit (Eventf EventTypeWarning ''ERROR'' ''Error creating %v rule: %s''
                     [Int64 (in_Priority inp), Str err])
               (call (CreateRule_call inp) fx))"
    by (simp add: create_def)
next
  assume "modify_input r = Inr minp \<and> mod_RuleArn minp = Some arn \<and> ModifyRule api minp = Inl err"
  then show "modify api rOpts r fx =
        Inr (Some (fmt_Errorf (''Error modifying rule '' @ arn @ '': '' @ err) []),
             r,
             emit (Eventf EventTypeWarning ''ERROR'' (''Error modifying rule '' @ arn @ '': '' @ err) [])
               (call (ModifyRule_call minp) fx))"
    by (simp add: modify_def Let_def)
next
  assume a: "Reconcile api rOpts r fx = Inr (Some e, r', fx')"
  from Reconcile_retry [OF a]
  show "rs_current r' = rs_current r" "svc_current r' = svc_current r" "deleted r' = deleted r"
    "\<exists>c. calls fx' = calls fx @ [c] \<and>
             (\<forall>fx2. \<exists>fx2'. Reconcile api rOpts r' fx2 = Inr (Some e, r', fx2')
                        \<and> calls fx2' = calls fx2 @ [c])"
    by blast+
qed

text \<open>
  Claim C3, amended. For a rule whose current state equals its desired state (the same
  actions once the target ARN is resolved, the same map from fields to values whatever the
  order of the conditions, the same service binding), \<open>Reconcile\<close> issues no cloud call,
  emits no event and returns no error. The current snapshot is unchanged when the desired
  rule is not the default one; when it is the default one, the current snapshot is
  replaced by the desired one.
\<close>

theorem reconcile_in_sync:
  assumes "rs_desired r = Some d" and "rs_current r = Some c" and "IsDefault d = Some b"
    and "Rule_TargetGroupArn r (TargetGroups rOpts) fx = Inr (arn, fxa)"
    and "Actions c = map (\<lambda>a. a\<lparr>TargetGroupArn := arn\<rparr>) (Actions d)"
    and "conditionToMap (Conditions c) = Inr m1" and "conditionToMap (Conditions d) = Inr m2"
    and "map_of m1 = map_of m2"
    and "svc_current r = svc_desired r"
  shows "\<exists>r' fx'. Reconcile api rOpts r fx = Inr (None, r', fx')
           \<and> calls fx' = calls fx \<and> events fx' = events fx
           \<and> rs_desired r' = Some (setTargetGroupArn arn d)
           \<and> svc_current r' = svc_current r \<and> deleted r' = deleted r
           \<and> (\<not> b \<longrightarrow> rs_current r' = rs_current r)
           \<and> (b \<longrightarrow> rs_current r' = rs_desired r')"
proof -
  let ?r1 = "r\<lparr>rs_desired := Some (setTargetGroupArn arn d)\<rparr>"
  obtain dl where dl: "calls dl = []" "events dl = []"
    and rc: "\<And>x. Reconcile api rOpts r x = Reconcile_switch api rOpts ?r1 (append_effects x dl)"
    using Reconcile_desired [OF assms(1,4)] by blast
  let ?fx = "append_effects fx dl"
  have fx: "calls ?fx = calls fx" "events ?fx = events fx" using dl by simp_all
  show ?thesis
  proof (cases b)
    case True
    then have "Reconcile api rOpts r fx = Inr (None, ?r1\<lparr>rs_current := rs_desired ?r1\<rparr>, ?fx)"
      using assms(3) by (simp add: rc Reconcile_switch_def)
    then show ?thesis using fx True by simp
  next
    case False
    have ce: "conditionsEqual (Conditions c) (Conditions (setTargetGroupArn arn d)) = Inr True"
      using conditionsEqual_map_le [OF assms(6), of "Conditions d" m2] assms(7,8) by simp
    have nm: "needsModification ?r1 ?fx = Inr (False, ?fx)"
      using assms(2,5,9) ce by (simp add: needsModification_def DeepEqual_def)
    have "Reconcile api rOpts r fx = Inr (None, ?r1, ?fx)"
      using assms(2,3) False nm by (simp add: rc Reconcile_switch_def)
    then show ?thesis using fx False by simp
  qed
qed


section \<open>Reconcile on the example rules\<close>

lemma example_TargetGroupArn:
  "Rule_TargetGroupArn (r\<lparr>svc_desired := example_service\<rparr>) (TargetGroups example_rOpts) fx
     = Inr (Some ''arn:tg/web'', fx)"
  by (simp add: Rule_TargetGroupArn_def LookupByBackend_def example_rOpts_def
        example_service_def Let_def)

lemma priority_5: "priority (Some ''5'') = Inr 5"
  by (simp add: priority_def ParseInt_def ParseUint_def is_digit_def maxUint64_def Let_def)

text \<open>
  The default rule of a listener, as the cloud reports it, has the actions, the conditions
  and the service binding of the desired default rule, and its own ARN. \<open>Reconcile\<close>
  issues no call and replaces it by the desired snapshot, which has no ARN: the current
  snapshot is not left unchanged.
\<close>

theorem reconcile_in_sync_counterexample:
  "Rule_TargetGroupArn default_rule (TargetGroups example_rOpts) no_effects
     = Inr (Some ''arn:tg/web'', no_effects)
   \<and> Actions default_current = Actions (setTargetGroupArn (Some ''arn:tg/web'') default_desired)
   \<and> conditionsEqual (Conditions default_current) (Conditions default_desired) = Inr True
   \<and> svc_current default_rule = svc_desired default_rule
   \<and> Reconcile accepting_api example_rOpts default_rule no_effects
       = Inr (None,
              default_rule\<lparr>rs_current := Some (setTargetGroupArn (Some ''arn:tg/web'') default_desired),
                            rs_desired := Some (setTargetGroupArn (Some ''arn:tg/web'') default_desired)\<rparr>,
              no_effects)
   \<and> Some (setTargetGroupArn (Some ''arn:tg/web'') default_desired) \<noteq> rs_current default_rule"
proof -
  have t: "Rule_TargetGroupArn default_rule (TargetGroups example_rOpts) fx
     = Inr (Some ''arn:tg/web'', fx)" for fx
    using example_TargetGroupArn [of default_rule fx] by (simp add: default_rule_def)
  have a: "Actions default_current = Actions (setTargetGroupArn (Some ''arn:tg/web'') default_desired)"
    by (simp add: default_current_def default_desired_def)
  have c: "conditionsEqual (Conditions default_current) (Conditions default_desired) = Inr True"
    by (simp add: conditionsEqual_def conditionToMap_def default_current_def default_desired_def)
  have s: "svc_current default_rule = svc_desired default_rule"
    by (simp add: default_rule_def)
  have r: "Reconcile accepting_api example_rOpts default_rule no_effects
       = Inr (None,
              default_rule\<lparr>rs_current := Some (setTargetGroupArn (Some ''arn:tg/web'') default_desired),
                            rs_desired := Some (setTargetGroupArn (Some ''arn:tg/web'') default_desired)\<rparr>,
              no_effects)"
    using t [of no_effects]
    by (simp add: Reconcile_def Reconcile_switch_def setTargetGroupArn_def default_rule_def
          default_desired_def)
  have n: "Some (setTargetGroupArn (Some ''arn:tg/web'') default_desired) \<noteq> rs_current default_rule"
    by (simp add: setTargetGroupArn_def default_rule_def default_desired_def default_current_def)
  from t [of no_effects] a c s r n show ?thesis by blast
qed

theorem reconcile_in_sync_witness:
  "\<exists>r' fx'. Reconcile accepting_api example_rOpts example_rule no_effects = Inr (None, r', fx')
      \<and> calls fx' = [] \<and> events fx' = [] \<and> rs_current r' = Some example_current"
proof -
  have t: "Rule_TargetGroupArn example_rule (TargetGroups example_rOpts) no_effects
     = Inr (Some ''arn:tg/web'', no_effects)"
    using example_TargetGroupArn [of example_rule no_effects] by (simp add: example_rule_def)
  have a: "Actions example_current =
             map (\<lambda>a. a\<lparr>TargetGroupArn := Some ''arn:tg/web''\<rparr>) (Actions example_desired)"
    by (simp add: example_current_def example_desired_def)
  have m1: "conditionToMap (Conditions example_current)
              = Inr [(''path-pattern'', [''/a'']), (''host-header'', [''foo.com''])]"
    by (simp add: conditionToMap_def example_current_def host_condition_def path_condition_def)
  have m2: "conditionToMap (Conditions example_desired)
              = Inr [(''host-header'', [''foo.com'']), (''path-pattern'', [''/a''])]"
    by (simp add: conditionToMap_def example_desired_def host_condition_def path_condition_def)
  have eq: "map_of [(''path-pattern'', [''/a'']), (''host-header'', [''foo.com''])]
          = map_of [(''host-header'', [''foo.com'']), (''path-pattern'', [''/a''])]"
    by (auto simp: fun_eq_iff)
  have "\<exists>r' fx'. Reconcile accepting_api example_rOpts example_rule no_effects = Inr (None, r', fx')
           \<and> calls fx' = calls no_effects \<and> events fx' = events no_effects
           \<and> rs_desired r' = Some (setTargetGroupArn (Some ''arn:tg/web'') example_desired)
           \<and> svc_current r' = svc_current example_rule \<and> deleted r' = deleted example_rule
           \<and> (\<not> False \<longrightarrow> rs_current r' = rs_current example_rule)
           \<and> (False \<longrightarrow> rs_current r' = rs_desired r')"
    by (rule reconcile_in_sync [OF _ _ _ t a m1 m2 eq])
       (simp_all add: example_rule_def example_desired_def)
  then show ?thesis by (auto simp: no_effects_def example_rule_def)
qed


theorem default_rule_untouched_witness:
  "(\<exists>arn fx1 fx'. Rule_TargetGroupArn default_rule (TargetGroups example_rOpts) no_effects
                     = Inr (arn, fx1)
       \<and> Reconcile accepting_api example_rOpts default_rule no_effects =
           Inr (None, default_rule\<lparr>rs_desired := Some (setTargetGroupArn arn default_desired),
                                    rs_current := Some (setTargetGroupArn arn default_desired)\<rparr>, fx')
       \<and> calls fx' = [] \<and> events fx' = [])
   \<and> Reconcile accepting_api example_rOpts (default_rule\<lparr>rs_desired := None\<rparr>) no_effects
       = Inr (None, default_rule\<lparr>rs_desired := None\<rparr>, no_effects)"
proof -
  have d: "rs_desired default_rule = Some default_desired \<and> IsDefault default_desired = Some True"
    by (simp add: default_rule_def default_desired_def)
  have c: "rs_desired (default_rule\<lparr>rs_desired := None\<rparr>) = None
           \<and> rs_current (default_rule\<lparr>rs_desired := None\<rparr>) = Some default_current
           \<and> IsDefault default_current = Some True"
    by (simp add: default_rule_def default_current_def)
  have 1: "\<exists>arn fx1 fx'. Rule_TargetGroupArn default_rule (TargetGroups example_rOpts) no_effects
                     = Inr (arn, fx1)
       \<and> Reconcile accepting_api example_rOpts default_rule no_effects =
           Inr (None, default_rule\<lparr>rs_desired := Some (setTargetGroupArn arn default_desired),
                                    rs_current := Some (setTargetGroupArn arn default_desired)\<rparr>, fx')
       \<and> calls fx' = calls no_effects \<and> events fx' = events no_effects"
    using default_rule_untouched
            [of default_rule default_desired example_rOpts no_effects accepting_api default_current]
          d
    by blast
  have 2: "Reconcile accepting_api example_rOpts (default_rule\<lparr>rs_desired := None\<rparr>) no_effects
       = Inr (None, default_rule\<lparr>rs_desired := None\<rparr>, no_effects)"
    using default_rule_untouched
            [of "default_rule\<lparr>rs_desired := None\<rparr>" default_desired example_rOpts no_effects
                accepting_api default_current]
          c
    by blast
  from 1 2 show ?thesis by (simp add: no_effects_def)
qed

theorem delete_non_default_witness:
  "Reconcile accepting_api example_rOpts (example_rule\<lparr>rs_desired := None\<rparr>) no_effects
     = Inr (None, example_rule\<lparr>rs_desired := None, deleted := True\<rparr>,
            \<lparr>calls = [DeleteRule_call \<lparr>del_RuleArn = Some ''arn:rule/5''\<rparr>],
             events = [Eventf EventTypeNormal ''DELETE'' ''%s rule deleted'' [Str ''5'']],
             logs = [Infof ''Start Rule deletion.'',
                     Infof ''Completed Rule deletion. Rule Priority: %s | Condition: %s'']\<rparr>)
   \<and> Reconcile refusing_api example_rOpts (example_rule\<lparr>rs_desired := None\<rparr>) no_effects
     = Inr (Some (fmt_Errorf ''Failed Rule deletion. Error: %s'' [Str ''AccessDenied'']),
            example_rule\<lparr>rs_desired := None\<rparr>,
            \<lparr>calls = [DeleteRule_call \<lparr>del_RuleArn = Some ''arn:rule/5''\<rparr>],
             events = [Eventf EventTypeWarning ''ERROR'' ''Error deleting %s rule: %s''
                         [Str ''5'', Str ''AccessDenied'']],
             logs = [Infof ''Start Rule deletion.'']\<rparr>)"
proof -
  let ?r = "example_rule\<lparr>rs_desired := None\<rparr>"
  have h: "rs_desired ?r = None" "rs_current ?r = Some example_current"
    "IsDefault example_current = Some False" "Priority example_current = Some ''5''"
    by (simp_all add: example_rule_def example_current_def)
  have a: "DeleteRule accepting_api \<lparr>del_RuleArn = RuleArn example_current\<rparr> = None"
    by (simp add: accepting_api_def)
  have b: "DeleteRule refusing_api \<lparr>del_RuleArn = RuleArn example_current\<rparr> = Some ''AccessDenied''"
    by (simp add: refusing_api_def)
  have arn: "RuleArn example_current = Some ''arn:rule/5''" by (simp add: example_current_def)
  have 1: "Reconcile accepting_api example_rOpts ?r no_effects
     = Inr (None, ?r\<lparr>deleted := True\<rparr>,
            no_effects\<lparr>calls := calls no_effects @ [DeleteRule_call \<lparr>del_RuleArn = RuleArn example_current\<rparr>],
              events := events no_effects @
                    [Eventf EventTypeNormal ''DELETE'' ''%s rule deleted'' [Str ''5'']],
              logs := logs no_effects @
                    [Infof ''Start Rule deletion.'',
                     Infof ''Completed Rule deletion. Rule Priority: %s | Condition: %s'']\<rparr>)"
    using delete_non_default [OF h, of accepting_api example_rOpts no_effects] a by simp
  have 2: "Reconcile refusing_api example_rOpts ?r no_effects
     = Inr (Some (fmt_Errorf ''Failed Rule deletion. Error: %s'' [Str ''AccessDenied'']), ?r,
            no_effects\<lparr>calls := calls no_effects @ [DeleteRule_call \<lparr>del_RuleArn = RuleArn example_current\<rparr>],
              events := events no_effects @
                    [Eventf EventTypeWarning ''ERROR'' ''Error deleting %s rule: %s''
                       [Str ''5'', Str ''AccessDenied'']],
              logs := logs no_effects @ [Infof ''Start Rule deletion.'']\<rparr>)"
    using delete_non_default [OF h, of refusing_api example_rOpts no_effects] b by simp
  show ?thesis unfolding 1 2 by (simp add: arn no_effects_def)
qed

theorem failed_call_keeps_current_witness:
  "(\<exists>e fx'. create refusing_api example_rOpts (example_rule\<lparr>rs_current := None\<rparr>) no_effects
               = Inr (Some e, example_rule\<lparr>rs_current := None\<rparr>, fx'))
   \<and> (\<exists>e fx'. modify refusing_api example_rOpts example_rule no_effects
               = Inr (Some e, example_rule, fx'))
   \<and> (\<exists>e r' fx' c.
         Reconcile refusing_api example_rOpts (example_rule\<lparr>rs_current := None\<rparr>) no_effects
           = Inr (Some e, r', fx')
         \<and> rs_current r' = None \<and> svc_current r' = example_service
         \<and> calls fx' = [c]
         \<and> (\<exists>fx2'. Reconcile refusing_api example_rOpts r' fx' = Inr (Some e, r', fx2')
                \<and> calls fx2' = [c, c]))"
proof -
  let ?r = "example_rule\<lparr>rs_current := None\<rparr>"
  let ?inp = "\<lparr>in_Actions = Actions example_desired, in_Conditions = Conditions example_desired,
               in_ListenerArn = ListenerArn example_rOpts, in_Priority = 5\<rparr>"
  let ?minp = "\<lparr>mod_Actions = Actions example_desired, mod_Conditions = Conditions example_desired,
                mod_RuleArn = RuleArn example_current\<rparr>"
  have ci: "create_input example_rOpts ?r = Inr ?inp \<and> CreateRule refusing_api ?inp = Inl ''AccessDenied''"
    using priority_5 by (simp add: create_input_def example_rule_def example_desired_def refusing_api_def)
  have mi: "modify_input example_rule = Inr ?minp \<and> mod_RuleArn ?minp = Some ''arn:rule/5''
            \<and> ModifyRule refusing_api ?minp = Inl ''AccessDenied''"
    by (simp add: modify_input_def example_rule_def example_current_def refusing_api_def)
  have 1: "\<exists>e fx'. create refusing_api example_rOpts ?r no_effects = Inr (Some e, ?r, fx')"
    using failed_call_keeps_current [of example_rOpts ?r ?inp refusing_api "''AccessDenied''" no_effects] ci by blast
  have 2: "\<exists>e fx'. modify refusing_api example_rOpts example_rule no_effects
               = Inr (Some e, example_rule, fx')"
    using failed_call_keeps_current [of example_rOpts example_rule _ refusing_api "''AccessDenied''" no_effects ?minp
                 "''arn:rule/5''"] mi
    by blast
  have t: "Rule_TargetGroupArn ?r (TargetGroups example_rOpts) fx = Inr (Some ''arn:tg/web'', fx)" for fx
    using example_TargetGroupArn [of ?r fx] by (simp add: example_rule_def)
  obtain e r' fx' where rc: "Reconcile refusing_api example_rOpts ?r no_effects = Inr (Some e, r', fx')"
    using t [of no_effects] t [of "log (Infof ''Start Rule creation.'') no_effects"]
    by (simp add: Reconcile_def Reconcile_switch_def create_def create_input_def priority_5
          example_rule_def example_desired_def refusing_api_def)
  have "rs_current r' = rs_current ?r \<and> svc_current r' = svc_current ?r \<and> deleted r' = deleted ?r
        \<and> (\<exists>c. calls fx' = calls no_effects @ [c] \<and>
             (\<forall>fx2. \<exists>fx2'. Reconcile refusing_api example_rOpts r' fx2 = Inr (Some e, r', fx2')
                        \<and> calls fx2' = calls fx2 @ [c]))"
    using failed_call_keeps_current [of example_rOpts ?r _ refusing_api _ no_effects _ _ e r' fx'] rc by blast
  then have 3: "\<exists>e r' fx' c.
         Reconcile refusing_api example_rOpts ?r no_effects = Inr (Some e, r', fx')
         \<and> rs_current r' = None \<and> svc_current r' = example_service
         \<and> calls fx' = [c]
         \<and> (\<exists>fx2'. Reconcile refusing_api example_rOpts r' fx' = Inr (Some e, r', fx2')
                \<and> calls fx2' = [c, c])"
    using rc by (fastforce simp: example_rule_def no_effects_def)
  from 1 2 3 show ?thesis by blast
qed

theorem modify_zero_rules_witness:
  "modify empty_api example_rOpts
     (example_rule\<lparr>svc_current := example_service\<lparr>name := ''old''\<rparr>\<rparr>) no_effects
   = Inr (None, example_rule,
          call (ModifyRule_call \<lparr>mod_Actions = Actions example_desired,
                                  mod_Conditions = Conditions example_desired,
                                  mod_RuleArn = RuleArn example_current\<rparr>) no_effects)"
proof -
  let ?r = "example_rule\<lparr>svc_current := example_service\<lparr>name := ''old''\<rparr>\<rparr>"
  have h: "rs_desired ?r = Some example_desired" "rs_current ?r = Some example_current"
    "ModifyRule empty_api \<lparr>mod_Actions = Actions example_desired,
        mod_Conditions = Conditions example_desired, mod_RuleArn = RuleArn example_current\<rparr> = Inr []"
    by (simp_all add: example_rule_def empty_api_def)
  show ?thesis
    using modify_zero_rules [OF h, of example_rOpts no_effects]
    by (simp add: example_rule_def)
qed

theorem create_first_rule_unchecked_witness:
  "create empty_api example_rOpts (example_rule\<lparr>rs_current := None\<rparr>) no_effects
     = Inl IndexOutOfRange
   \<and> (\<exists>x fx'. create accepting_api example_rOpts (example_rule\<lparr>rs_current := None\<rparr>) no_effects
        = Inr (None, example_rule\<lparr>rs_current := Some x\<rparr>, fx'))
   \<and> (\<exists>res. modify empty_api example_rOpts example_rule no_effects = Inr res)"
proof -
  let ?r = "example_rule\<lparr>rs_current := None\<rparr>"
  let ?inp = "\<lparr>in_Actions = Actions example_desired, in_Conditions = Conditions example_desired,
               in_ListenerArn = ListenerArn example_rOpts, in_Priority = 5\<rparr>"
  let ?minp = "\<lparr>mod_Actions = Actions example_desired, mod_Conditions = Conditions example_desired,
                mod_RuleArn = RuleArn example_current\<rparr>"
  have ci: "create_input example_rOpts ?r = Inr ?inp"
    using priority_5 by (simp add: create_input_def example_rule_def example_desired_def)
  have e: "CreateRule empty_api ?inp = Inr []" by (simp add: empty_api_def)
  have a: "\<exists>x. CreateRule accepting_api ?inp = Inr [x]" by (simp add: accepting_api_def)
  have m: "modify_input ?r = Inl NilDereference" by (simp add: modify_input_def example_rule_def)
  have 1: "create empty_api example_rOpts ?r no_effects = Inl IndexOutOfRange"
    using create_first_rule_unchecked [OF ci, of empty_api no_effects] e by blast
  have 2: "\<exists>x fx'. create accepting_api example_rOpts ?r no_effects
        = Inr (None, example_rule\<lparr>rs_current := Some x\<rparr>, fx')"
    using create_first_rule_unchecked [OF ci, of accepting_api no_effects] a
    by (fastforce simp: example_rule_def)
  have ci2: "create_input example_rOpts example_rule = Inr ?inp"
    using priority_5 by (simp add: create_input_def example_rule_def example_desired_def)
  have mi: "modify_input example_rule = Inr ?minp \<and> ModifyRule empty_api ?minp = Inr []"
    by (simp add: modify_input_def example_rule_def empty_api_def)
  have 3: "\<exists>res. modify empty_api example_rOpts example_rule no_effects = Inr res"
    using create_first_rule_unchecked [OF ci2, of empty_api no_effects] mi by blast
  from 1 2 3 show ?thesis by blast
qed

section \<open>The change mask of the load balancer options\<close>

lemma flag_values:
  "inboundCidrsModified = 32" "portsModified = 64" "webACLAssociationModified = 256"
  by (simp_all add: inboundCidrsModified_def portsModified_def webACLAssociationModified_def)

lemma options_needsModification_fst:
  "fst (options_needsModification Hash opt) =
     (if ports (current opt) \<noteq> None \<and> managedSG (current opt) \<noteq> None
         \<and> Hash (inboundCidrs (current opt)) \<noteq> Hash (inboundCidrs (desired opt))
      then inboundCidrsModified else 0)
     OR (if ports (current opt) \<noteq> None \<and> managedSG (current opt) \<noteq> None
            \<and> map_option sort_Sort (ports (desired opt)) \<noteq> map_option sort_Sort (ports (current opt))
         then portsModified else 0)
     OR (if webACLId (current opt) \<noteq> webACLId (desired opt)
         then webACLAssociationModified else 0)"
proof -
  have w: "((webACLId (desired opt) \<noteq> None \<and> webACLId (current opt) = None)
            \<or> (webACLId (desired opt) = None \<and> webACLId (current opt) \<noteq> None)
            \<or> (webACLId (current opt) \<noteq> None \<and> webACLId (desired opt) \<noteq> None
                \<and> the (webACLId (current opt)) \<noteq> the (webACLId (desired opt))))
           = (webACLId (current opt) \<noteq> webACLId (desired opt))"
    by (cases "webACLId (current opt)"; cases "webACLId (desired opt)") auto
  show ?thesis
    unfolding options_needsModification_def w
    by (simp add: Let_def or.assoc split: prod.splits)
qed

text \<open>
  Claim C8. The change mask of the options is the bitwise OR of three independent flags:
  the CIDR flag and the port flag can be set only when the ports and the managed security
  group of the current side are non-nil, and then the CIDR flag is set exactly when the
  hashes of the two CIDR lists differ and the port flag exactly when the sorted port lists
  differ (as \<open>reflect.DeepEqual\<close> compares them, a nil list differing from an empty one);
  the WAF flag is set exactly when one of the two ids is absent and the other present, or
  both are present with different values.
\<close>

theorem options_flags:
  "fst (options_needsModification Hash opt) =
     (if ports (current opt) \<noteq> None \<and> managedSG (current opt) \<noteq> None
         \<and> Hash (inboundCidrs (current opt)) \<noteq> Hash (inboundCidrs (desired opt))
      then inboundCidrsModified else 0)
     OR (if ports (current opt) \<noteq> None \<and> managedSG (current opt) \<noteq> None
            \<and> map_option sort_Sort (ports (desired opt)) \<noteq> map_option sort_Sort (ports (current opt))
         then portsModified else 0)
     OR (if webACLId (current opt) \<noteq> webACLId (desired opt)
         then webACLAssociationModified else 0)
   \<and> (fst (options_needsModification Hash opt) AND inboundCidrsModified \<noteq> 0) =
       (ports (current opt) \<noteq> None \<and> managedSG (current opt) \<noteq> None
        \<and> Hash (inboundCidrs (current opt)) \<noteq> Hash (inboundCidrs (desired opt)))
   \<and> (fst (options_needsModification Hash opt) AND portsModified \<noteq> 0) =
       (ports (current opt) \<noteq> None \<and> managedSG (current opt) \<noteq> None
        \<and> map_option sort_Sort (ports (desired opt)) \<noteq> map_option sort_Sort (ports (current opt)))
   \<and> (fst (options_needsModification Hash opt) AND webACLAssociationModified \<noteq> 0) =
       ((webACLId (current opt) = None) \<noteq> (webACLId (desired opt) = None)
        \<or> (\<exists>a b. webACLId (current opt) = Some a \<and> webACLId (desired opt) = Some b \<and> a \<noteq> b))"
proof -
  have w: "(webACLId (current opt) \<noteq> webACLId (desired opt)) =
           ((webACLId (current opt) = None) \<noteq> (webACLId (desired opt) = None)
        \<or> (\<exists>a b. webACLId (current opt) = Some a \<and> webACLId (desired opt) = Some b \<and> a \<noteq> b))"
    by (cases "webACLId (current opt)"; cases "webACLId (desired opt)") auto
  show ?thesis
    unfolding options_needsModification_fst w [symmetric]
    by (simp add: flag_values)
qed

lemma sort_example: "sort_Sort [443, 80] = [80, 443]" "sort_Sort [80, 443] = [80, 443]"
  by (simp_all add: sort_Sort_def)

theorem options_flags_witness:
  "fst (options_needsModification concat example_options) = webACLAssociationModified
   \<and> fst (options_needsModification concat example_options) AND portsModified = 0"
proof -
  have "fst (options_needsModification concat example_options) = webACLAssociationModified"
    using options_flags [of concat example_options]
    by (simp add: example_options_def sort_example)
  then show ?thesis by (simp add: flag_values)
qed

end
